theory Spec2Isabelle
  imports Main "HOL-Library.Sublist"
begin

section \<open>JavaScript strings\<close>

text \<open>
  A JavaScript string is modelled as a \<^typ>\<open>string\<close>: a list of 8-bit characters, read as
  the code units U+0000 to U+00FF. This is the range on which \<open>btoa\<close> is defined (it throws on
  any code unit above U+00FF) and in which \<open>atob\<close> answers, so it is the range of the texts that
  the repository can store and read back.
\<close>

definition DQUOTE :: char where
  "DQUOTE = CHR 0x22"

definition COMMA :: char where
  "COMMA = CHR 0x2C"

definition LF :: char where
  "LF = CHR 0x0A"

text \<open>
  \<open>String.prototype.trim\<close> removes white space and line terminators from both ends. Among the
  code units up to U+00FF these are TAB, LF, VT, FF, CR, SPACE and NO-BREAK SPACE.
\<close>

definition isWhiteSpace :: "char \<Rightarrow> bool" where
  "isWhiteSpace c \<longleftrightarrow>
     c = CHR 0x09 \<or> c = CHR 0x0A \<or> c = CHR 0x0B \<or> c = CHR 0x0C \<or> c = CHR 0x0D \<or>
     c = CHR 0x20 \<or> c = CHR 0xA0"

definition trim :: "string \<Rightarrow> string" where
  "trim s = rev (dropWhile isWhiteSpace (rev (dropWhile isWhiteSpace s)))"

text \<open>
  \<open>s.split(sep)\<close> for a separator of one character: the loop keeps the piece read so far and
  closes it at every separator; the result has one more piece than \<open>s\<close> has separators.
\<close>

fun split_from :: "char \<Rightarrow> string \<Rightarrow> string \<Rightarrow> string list" where
  "split_from sep piece [] = [piece]"
| "split_from sep piece (c # cs) =
     (if c = sep then piece # split_from sep [] cs
      else split_from sep (piece @ [c]) cs)"

definition split :: "string \<Rightarrow> char \<Rightarrow> string list" where
  "split s sep = split_from sep [] s"

text \<open>\<open>parts.join(sep)\<close>.\<close>

fun join :: "string list \<Rightarrow> string \<Rightarrow> string" where
  "join [] sep = []"
| "join [x] sep = x"
| "join (x # y # ys) sep = x @ sep @ join (y # ys) sep"

text \<open>\<open>s.includes(t)\<close>: \<open>t\<close> occurs in \<open>s\<close> as a contiguous run.\<close>

fun includes_str :: "string \<Rightarrow> string \<Rightarrow> bool" where
  "includes_str [] t = (t = [])"
| "includes_str (c # cs) t = (prefix t (c # cs) \<or> includes_str cs t)"

text \<open>
  \<open>s.toLowerCase()\<close> on code units up to U+00FF: the letters A to Z and the Latin-1 capitals
  U+00C0 to U+00DE (the multiplication sign U+00D7 apart) move up by 32.
\<close>

definition toLowerChar :: "char \<Rightarrow> char" where
  "toLowerChar c =
     (let n = (of_char c :: nat)
      in if (65 \<le> n \<and> n \<le> 90) \<or> (192 \<le> n \<and> n \<le> 222 \<and> n \<noteq> 215)
         then char_of (n + 32) else c)"

definition toLowerCase :: "string \<Rightarrow> string" where
  "toLowerCase s = map toLowerChar s"

text \<open>\<open>s.replace(/"/g, '""')\<close>: every double quote is doubled.\<close>

fun replace_quotes :: "string \<Rightarrow> string" where
  "replace_quotes [] = []"
| "replace_quotes (c # cs) =
     (if c = DQUOTE then DQUOTE # DQUOTE # replace_quotes cs else c # replace_quotes cs)"


section \<open>Configuration\<close>

definition CSV_HEADERS :: "string list" where
  "CSV_HEADERS =
     [''Date'', ''Context'', ''Project/Task'', ''Skills & Tools'', ''Outcome/Deliverable'',
      ''Time Spent'', ''Key Learnings/Challenges'', ''Next Steps'', ''Status'', ''Tags'']"


text \<open>\<open>APP_CONFIG.CSV_HEADERS.join(",")\<close>, written out.\<close>

definition header_line :: string where
  "header_line = ''Date,Context,Project/Task,Skills & Tools,Outcome/Deliverable,Time Spent,Key Learnings/Challenges,Next Steps,Status,Tags''"

definition GITHUB_API_BASE :: string where
  "GITHUB_API_BASE = ''https://api.github.com''"

definition GITHUB_NOT_CONFIGURED :: string where
  "GITHUB_NOT_CONFIGURED = ''GitHub configuration is missing. Please update config.js with your repository details.''"

definition GITHUB_AUTH_ERROR :: string where
  "GITHUB_AUTH_ERROR = ''Authentication failed. Please check your GitHub Personal Access Token.''"

definition GITHUB_RATE_LIMIT :: string where
  "GITHUB_RATE_LIMIT = ''GitHub API rate limit exceeded. Please try again later.''"

definition FILTERS_CLEARED :: string where
  "FILTERS_CLEARED = ''Filters cleared successfully!''"


section \<open>Record codec (Utils)\<close>

text \<open>
  A record is a JavaScript object whose own properties are strings: a map from property
  names to values. \<open>None\<close> is \<open>undefined\<close>. The order of the properties is not kept: no
  operation below depends on it. Every name is an ordinary property name here; the ten
  canonical headers are (the name \<open>__proto__\<close>, which an assignment does not create, is not
  told apart).
\<close>

type_synonym js_object = "string \<rightharpoonup> string"

text \<open>\<open>row[header] || ""\<close>: a missing property and the empty string both give the empty string.\<close>

definition or_empty :: "string option \<Rightarrow> string" where
  "or_empty v = (case v of None \<Rightarrow> [] | Some s \<Rightarrow> s)"

text \<open>
  \<open>Utils.parseCSVLine\<close>: the loop over the characters of the line, with its three variables
  \<open>result\<close>, \<open>current\<close> and \<open>inQuotes\<close>.
\<close>

fun parseCSVLine_loop :: "string \<Rightarrow> string list \<Rightarrow> string \<Rightarrow> bool \<Rightarrow> string list" where
  "parseCSVLine_loop [] result current inQuotes = result @ [trim current]"
| "parseCSVLine_loop (c # cs) result current inQuotes =
     (if c = DQUOTE then parseCSVLine_loop cs result current (\<not> inQuotes)
      else if c = COMMA \<and> \<not> inQuotes then parseCSVLine_loop cs (result @ [trim current]) [] inQuotes
      else parseCSVLine_loop cs result (current @ [c]) inQuotes)"

definition parseCSVLine :: "string \<Rightarrow> string list" where
  "parseCSVLine line = parseCSVLine_loop line [] [] False"

text \<open>
  \<open>values[index] || ""\<close>: an index past the end of the array reads \<open>undefined\<close>.
\<close>

definition value_at :: "string list \<Rightarrow> nat \<Rightarrow> string" where
  "value_at vs i = (if i < length vs then vs ! i else [])"

text \<open>
  \<open>headers.forEach((header, index) => { obj[header] = values[index] || ""; })\<close>, starting
  from the empty object: a later column overwrites an earlier one of the same name.
\<close>

fun assign_columns :: "string list \<Rightarrow> nat \<Rightarrow> string list \<Rightarrow> js_object \<Rightarrow> js_object" where
  "assign_columns [] i vs obj = obj"
| "assign_columns (h # hs) i vs obj = assign_columns hs (Suc i) vs (obj(h \<mapsto> value_at vs i))"

text \<open>The \<open>for\<close> loop of \<open>Utils.csvToArray\<close> over \<open>lines[1]\<close>, \<open>lines[2]\<close>, ...\<close>

fun csvToArray_rows :: "string list \<Rightarrow> string list \<Rightarrow> js_object list" where
  "csvToArray_rows headers [] = []"
| "csvToArray_rows headers (l # ls) =
     (if trim l = [] then csvToArray_rows headers ls
      else assign_columns headers 0 (parseCSVLine l) Map.empty # csvToArray_rows headers ls)"

text \<open>
  \<open>Utils.csvToArray\<close>. On a string nothing inside the \<open>try\<close> block throws (\<open>lines[0]\<close>
  exists, since \<open>split\<close> never returns an empty array), so the \<open>catch\<close> branch has no case here.
\<close>

definition csvToArray :: "string \<Rightarrow> js_object list" where
  "csvToArray csvString =
     (if csvString = [] \<or> trim csvString = [] then []
      else (case split (trim csvString) LF of
              [] \<Rightarrow> []
            | l0 # ls \<Rightarrow> csvToArray_rows (map trim (split l0 COMMA)) ls))"

text \<open>The callback of \<open>headers.map\<close> in \<open>Utils.arrayToCSV\<close>: one field of one row.\<close>

definition csv_field :: "js_object \<Rightarrow> string \<Rightarrow> string" where
  "csv_field row header =
     (let escaped = replace_quotes (or_empty (row header))
      in if includes_str escaped [COMMA] \<or> includes_str escaped [LF]
         then [DQUOTE] @ escaped @ [DQUOTE] else escaped)"

definition csv_line :: "js_object \<Rightarrow> string" where
  "csv_line row = join (map (csv_field row) CSV_HEADERS) [COMMA]"

text \<open>
  \<open>Utils.arrayToCSV\<close>. The rows are objects with string properties, on which nothing inside
  the \<open>try\<close> block throws.
\<close>

definition arrayToCSV :: "js_object list \<Rightarrow> string" where
  "arrayToCSV data =
     (if data = [] then join CSV_HEADERS [COMMA] @ [LF]
      else join (join CSV_HEADERS [COMMA] # map csv_line data) [LF])"


text \<open>
  \<open>Utils.filterArray\<close>. \<open>value && value.toString().toLowerCase().includes(term)\<close> is false
  for a missing property and for the empty string.
\<close>

definition filterArray :: "js_object list \<Rightarrow> string \<Rightarrow> string list \<Rightarrow> js_object list" where
  "filterArray array searchTerm searchFields =
     (if searchTerm = [] \<or> trim searchTerm = [] then array
      else (let term = trim (toLowerCase searchTerm)
            in filter (\<lambda>item. list_ex (\<lambda>field.
                 (case item field of
                    None \<Rightarrow> False
                  | Some v \<Rightarrow> v \<noteq> [] \<and> includes_str (toLowerCase v) term)) searchFields) array))"


section \<open>Transport encoding (the platform's \<open>btoa\<close> and \<open>atob\<close>)\<close>

text \<open>
  The base64 alphabet, by position: \<open>A\<close> to \<open>Z\<close>, \<open>a\<close> to \<open>z\<close>, \<open>0\<close> to \<open>9\<close>, \<open>+\<close>
  and \<open>/\<close>.
\<close>

definition b64_char :: "nat \<Rightarrow> char" where
  "b64_char n =
     (if n < 26 then char_of (65 + n)
      else if n < 52 then char_of (71 + n)
      else if n < 62 then char_of (n - 4)
      else if n = 62 then CHR ''+''
      else CHR ''/'')"

text \<open>\<open>btoa\<close>: three bytes give four characters; one or two bytes left over are padded with \<open>=\<close>.\<close>

fun btoa_bytes :: "nat list \<Rightarrow> string" where
  "btoa_bytes (a # b # c # rest) =
     b64_char (a div 4) # b64_char ((a mod 4) * 16 + b div 16) #
     b64_char ((b mod 16) * 4 + c div 64) # b64_char (c mod 64) # btoa_bytes rest"
| "btoa_bytes [a, b] =
     [b64_char (a div 4), b64_char ((a mod 4) * 16 + b div 16), b64_char ((b mod 16) * 4), CHR ''='']"
| "btoa_bytes [a] = [b64_char (a div 4), b64_char ((a mod 4) * 16), CHR ''='', CHR ''='']"
| "btoa_bytes [] = []"

definition btoa :: "string \<Rightarrow> string" where
  "btoa s = btoa_bytes (map of_char s)"

text \<open>An exception of JavaScript: \<open>new Error(message)\<close>, or one thrown by the platform.\<close>

datatype js_error = Error string

fun message :: "js_error \<Rightarrow> string" where
  "message (Error m) = m"

definition INVALID_CHARACTER :: string where
  "INVALID_CHARACTER = ''The string to be decoded is not correctly encoded.''"

definition isAsciiWhitespace :: "char \<Rightarrow> bool" where
  "isAsciiWhitespace c \<longleftrightarrow>
     c = CHR 0x09 \<or> c = CHR 0x0A \<or> c = CHR 0x0C \<or> c = CHR 0x0D \<or> c = CHR 0x20"

definition b64_index :: "char \<Rightarrow> nat option" where
  "b64_index c =
     (let n = (of_char c :: nat)
      in if 65 \<le> n \<and> n \<le> 90 then Some (n - 65)
         else if 97 \<le> n \<and> n \<le> 122 then Some (n - 71)
         else if 48 \<le> n \<and> n \<le> 57 then Some (n + 4)
         else if n = 43 then Some 62
         else if n = 47 then Some 63
         else None)"

fun atob_sextets :: "nat list \<Rightarrow> string" where
  "atob_sextets (a # b # c # d # rest) =
     char_of (a * 4 + b div 16) # char_of ((b mod 16) * 16 + c div 4) #
     char_of ((c mod 4) * 64 + d) # atob_sextets rest"
| "atob_sextets [a, b, c] = [char_of (a * 4 + b div 16), char_of ((b mod 16) * 16 + c div 4)]"
| "atob_sextets [a, b] = [char_of (a * 4 + b div 16)]"
| "atob_sextets [a] = []"
| "atob_sextets [] = []"

definition strip_padding :: "string \<Rightarrow> string" where
  "strip_padding d =
     (if length d mod 4 = 0 \<and> d \<noteq> [] \<and> last d = CHR ''=''
      then (if butlast d \<noteq> [] \<and> last (butlast d) = CHR ''='' then butlast (butlast d) else butlast d)
      else d)"

text \<open>
  \<open>atob\<close> (the forgiving base64 decoding of the platform): ASCII white space is dropped, one
  or two padding characters are removed from a text whose length is a multiple of four, and a
  remaining length of one more than a multiple of four, or a character outside the alphabet,
  makes it throw.
\<close>

definition atob :: "string \<Rightarrow> js_error + string" where
  "atob data =
     (let d = strip_padding (filter (\<lambda>c. \<not> isAsciiWhitespace c) data)
      in if length d mod 4 = 1 \<or> list_ex (\<lambda>c. b64_index c = None) d
         then Inl (Error INVALID_CHARACTER)
         else Inr (atob_sextets (map (\<lambda>c. case b64_index c of None \<Rightarrow> 0 | Some n \<Rightarrow> n) d)))"


section \<open>Remote store client (GitHubAPI)\<close>

text \<open>
  The fields of the class. \<open>None\<close> is \<open>null\<close> (or \<open>undefined\<close>). Times are milliseconds,
  as \<open>Date.now()\<close> gives them.
\<close>

record GitHubAPI =
  owner :: string
  repo :: string
  csvPath :: string
  base64Content :: "string option"
  sha :: "string option"
  lastFetch :: "int option"
  cacheTimeout :: int

text \<open>The constructor, from the three constants of the configuration.\<close>

definition new_GitHubAPI :: "string \<Rightarrow> string \<Rightarrow> string \<Rightarrow> GitHubAPI" where
  "new_GitHubAPI github_owner github_repo csv_file_path =
     \<lparr>owner = github_owner, repo = github_repo, csvPath = csv_file_path,
      base64Content = None, sha = None, lastFetch = None, cacheTimeout = 5 * 60 * 1000\<rparr>"

definition isConfigured :: "GitHubAPI \<Rightarrow> bool" where
  "isConfigured a \<longleftrightarrow>
     owner a \<noteq> [] \<and> repo a \<noteq> [] \<and> owner a \<noteq> ''1Mangesh1'' \<and> repo a \<noteq> ''trackrecord''"

text \<open>
  What the client sends. The body of a \<open>PUT\<close> is the object handed to \<open>JSON.stringify\<close>.
  \<open>getAuthToken\<close> returns \<open>null\<close>, so no request carries an \<open>Authorization\<close> header.
\<close>

datatype http_method = GET | PUT

record put_body =
  body_message :: string
  body_content :: string
  body_sha :: "string option"

record request =
  req_url :: string
  req_method :: http_method
  req_headers :: "(string \<times> string) list"
  req_body :: "put_body option"

text \<open>
  What comes back. Of the JSON document of a response the client reads \<open>type\<close>,
  \<open>content\<close> and \<open>sha\<close> after a \<open>GET\<close>, and \<open>content.sha\<close> after a \<open>PUT\<close>:
  \<open>FileDocument type content sha\<close> is a document with these three string properties,
  \<open>CommitDocument sha\<close> one whose \<open>content\<close> is an object with the property \<open>sha\<close>, and
  \<open>OtherDocument\<close> one with neither \<open>type\<close> nor \<open>content\<close>. \<open>response.json()\<close> may
  reject instead (\<open>Inl\<close>), and \<open>fetch\<close> itself may reject (\<open>Rejected\<close>).
\<close>

datatype json = FileDocument string string string | CommitDocument string | OtherDocument

datatype fetch_result = Rejected string | Response nat string "js_error + json"

text \<open>
  The world outside the client: the clock read by \<open>Date.now()\<close>, every request handed to
  \<open>fetch\<close> so far (oldest first), and the state of whatever answers the requests. \<open>fetch\<close>
  is a parameter of the client's operations: a function from that state and a request to the
  answer and the next state. A request does not move the clock; time passes between the
  operations.
\<close>

record 'n world =
  clock :: int
  requests :: "request list"
  net :: 'n

type_synonym 'n fetch = "'n \<Rightarrow> request \<Rightarrow> fetch_result \<times> 'n"

text \<open>A number inside a template literal: its decimal digits.\<close>

function show_nat :: "nat \<Rightarrow> string" where
  "show_nat n = (if n < 10 then [char_of (48 + n)] else show_nat (n div 10) @ [char_of (48 + n mod 10)])"
  by pat_completeness auto
termination
  by (relation "measure id") auto

declare show_nat.simps [simp del]

text \<open>
  \<open>{method: "GET", headers: {Accept, User-Agent}, ...options}\<close>: the options of the caller
  replace the defaults property by property.
\<close>

definition build_request :: "string \<Rightarrow> put_body option \<Rightarrow> request" where
  "build_request url options =
     (case options of
        None \<Rightarrow>
          \<lparr>req_url = url, req_method = GET,
           req_headers = [(''Accept'', ''application/vnd.github.v3+json''), (''User-Agent'', ''TrackRecord-App'')],
           req_body = None\<rparr>
      | Some b \<Rightarrow>
          \<lparr>req_url = url, req_method = PUT,
           req_headers = [(''Content-Type'', ''application/json'')],
           req_body = Some b\<rparr>)"

text \<open>\<open>GitHubAPI.makeRequest\<close>. The \<open>catch\<close> block logs and throws the same error again.\<close>

definition makeRequest ::
  "'n fetch \<Rightarrow> GitHubAPI \<Rightarrow> string \<Rightarrow> put_body option \<Rightarrow> 'n world \<Rightarrow> (js_error + json) \<times> 'n world" where
  "makeRequest fetch a endpoint options w =
     (if \<not> isConfigured a then (Inl (Error GITHUB_NOT_CONFIGURED), w)
      else
        (let rq = build_request (GITHUB_API_BASE @ endpoint) options;
             (answer, n') = fetch (net w) rq;
             w' = w\<lparr>requests := requests w @ [rq], net := n'\<rparr>
         in case answer of
              Rejected m \<Rightarrow> (Inl (Error m), w')
            | Response status statusText body \<Rightarrow>
                if \<not> (200 \<le> status \<and> status \<le> 299) then
                  (if status = 401 then (Inl (Error GITHUB_AUTH_ERROR), w')
                   else if status = 403 then (Inl (Error GITHUB_RATE_LIMIT), w')
                   else (Inl (Error (''GitHub API error: '' @ show_nat status @ '' '' @ statusText)), w'))
                else (body, w')))"

definition contents_endpoint :: "GitHubAPI \<Rightarrow> string" where
  "contents_endpoint a = ''/repos/'' @ owner a @ ''/'' @ repo a @ ''/contents/'' @ csvPath a"

definition TYPE_ERROR_SHA :: string where
  "TYPE_ERROR_SHA = ''Cannot read properties of undefined (reading 'sha')''"

text \<open>
  \<open>GitHubAPI.updateCSVContent\<close>. The three assignments to the cache follow the request, so
  an error thrown by \<open>makeRequest\<close> leaves the fields as they were. \<open>this.base64Content\<close> is
  assigned before \<open>data.content.sha\<close> is read: on a document without \<open>content\<close> that read
  throws with the first assignment done; on a document whose \<open>content\<close> is a string it reads
  \<open>undefined\<close>.
\<close>

definition updateCSVContent ::
  "'n fetch \<Rightarrow> GitHubAPI \<Rightarrow> string \<Rightarrow> string \<Rightarrow> 'n world \<Rightarrow> (js_error + bool) \<times> GitHubAPI \<times> 'n world" where
  "updateCSVContent fetch a content commitMessage w =
     (let encodedContent = btoa content;
          requestBody = \<lparr>body_message = commitMessage, body_content = encodedContent, body_sha = sha a\<rparr>
      in case makeRequest fetch a (contents_endpoint a) (Some requestBody) w of
           (Inl e, w') \<Rightarrow> (Inl e, a, w')
         | (Inr (CommitDocument new_sha), w') \<Rightarrow>
             (Inr True,
              a\<lparr>base64Content := Some encodedContent, sha := Some new_sha, lastFetch := Some (clock w')\<rparr>, w')
         | (Inr (FileDocument t c s), w') \<Rightarrow>
             (Inr True,
              a\<lparr>base64Content := Some encodedContent, sha := None, lastFetch := Some (clock w')\<rparr>, w')
         | (Inr OtherDocument, w') \<Rightarrow>
             (Inl (Error TYPE_ERROR_SHA), a\<lparr>base64Content := Some encodedContent\<rparr>, w'))"

text \<open>\<open>GitHubAPI.createInitialCSV\<close>.\<close>

definition createInitialCSV ::
  "'n fetch \<Rightarrow> GitHubAPI \<Rightarrow> 'n world \<Rightarrow> (js_error + string) \<times> GitHubAPI \<times> 'n world" where
  "createInitialCSV fetch a w =
     (let initialContent = join CSV_HEADERS [COMMA] @ [LF]
      in case updateCSVContent fetch a initialContent ''Initial CSV file creation'' w of
           (Inl e, a', w') \<Rightarrow> (Inl e, a', w')
         | (Inr ok, a', w') \<Rightarrow> (Inr initialContent, a', w'))"

text \<open>
  The test that opens \<open>GitHubAPI.getCSVContent\<close>:
  \<open>!forceRefresh && this.base64Content && this.lastFetch && Date.now() - this.lastFetch < this.cacheTimeout\<close>.
  The empty string and the number zero are falsy. The result is the cached content to hand
  to \<open>atob\<close>, if the test holds.
\<close>

definition cached_content :: "bool \<Rightarrow> GitHubAPI \<Rightarrow> 'n world \<Rightarrow> string option" where
  "cached_content forceRefresh a w =
     (if forceRefresh then None
      else (case base64Content a of
              None \<Rightarrow> None
            | Some b \<Rightarrow>
                if b = [] then None
                else (case lastFetch a of
                        None \<Rightarrow> None
                      | Some t \<Rightarrow> if t \<noteq> 0 \<and> clock w - t < cacheTimeout a then Some b else None)))"

text \<open>
  The \<open>catch\<close> block of \<open>GitHubAPI.getCSVContent\<close>: an error whose message includes
  \<open>404\<close> starts the creation of the file, any other error is thrown again.
\<close>

definition on_fetch_error ::
  "'n fetch \<Rightarrow> js_error \<Rightarrow> GitHubAPI \<Rightarrow> 'n world \<Rightarrow> (js_error + string) \<times> GitHubAPI \<times> 'n world" where
  "on_fetch_error fetch e a w =
     (if includes_str (message e) ''404'' then createInitialCSV fetch a w else (Inl e, a, w))"

definition NOT_A_FILE :: string where
  "NOT_A_FILE = ''Repository path does not point to a file''"

text \<open>
  \<open>GitHubAPI.getCSVContent\<close>. The cached branch lies before the \<open>try\<close> block; the fetch,
  the test of \<open>data.type\<close>, the three assignments and \<open>atob(data.content)\<close> lie inside it.
\<close>

definition getCSVContent ::
  "'n fetch \<Rightarrow> bool \<Rightarrow> GitHubAPI \<Rightarrow> 'n world \<Rightarrow> (js_error + string) \<times> GitHubAPI \<times> 'n world" where
  "getCSVContent fetch forceRefresh a w =
     (case cached_content forceRefresh a w of
        Some b \<Rightarrow> (atob b, a, w)
      | None \<Rightarrow>
        (case makeRequest fetch a (contents_endpoint a) None w of
           (Inl e, w') \<Rightarrow> on_fetch_error fetch e a w'
         | (Inr (FileDocument t content s), w') \<Rightarrow>
             if t \<noteq> ''file'' then on_fetch_error fetch (Error NOT_A_FILE) a w'
             else
               (let a' = a\<lparr>base64Content := Some content, sha := Some s, lastFetch := Some (clock w')\<rparr>
                in case atob content of
                     Inl e \<Rightarrow> on_fetch_error fetch e a' w'
                   | Inr text \<Rightarrow> (Inr text, a', w'))
         | (Inr d, w') \<Rightarrow> on_fetch_error fetch (Error NOT_A_FILE) a w'))"

text \<open>A property inside a template literal: \<open>undefined\<close> prints as the word.\<close>

definition template_value :: "string option \<Rightarrow> string" where
  "template_value v = (case v of None \<Rightarrow> ''undefined'' | Some s \<Rightarrow> s)"

text \<open>\<open>GitHubAPI.appendEntry\<close>. The \<open>catch\<close> block logs and throws the same error again.\<close>

definition appendEntry ::
  "'n fetch \<Rightarrow> GitHubAPI \<Rightarrow> js_object \<Rightarrow> 'n world \<Rightarrow> (js_error + bool) \<times> GitHubAPI \<times> 'n world" where
  "appendEntry fetch a entry w =
     (case getCSVContent fetch False a w of
        (Inl e, a', w') \<Rightarrow> (Inl e, a', w')
      | (Inr currentContent, a', w') \<Rightarrow>
          (let currentData = csvToArray currentContent @ [entry];
               newContent = arrayToCSV currentData;
               commitMessage = ''Add track record entry: '' @ template_value (entry ''Project/Task'')
                                 @ '' - '' @ template_value (entry ''Date'')
           in updateCSVContent fetch a' newContent commitMessage w'))"

text \<open>\<open>GitHubAPI.clearCache\<close>.\<close>

definition clearCache :: "GitHubAPI \<Rightarrow> GitHubAPI" where
  "clearCache a = a\<lparr>base64Content := None, sha := None, lastFetch := None\<rparr>"


section \<open>Application (TrackRecordApp)\<close>

text \<open>
  The fields of the class, and \<open>shown\<close>: the notifications handed to
  \<open>Utils.showNotification\<close> so far (message and type), the one trace of the page that the
  model keeps. \<open>currentFilters\<close> is an object used as a dictionary; it is kept as the list
  of its entries in insertion order, which is the order of \<open>Object.entries\<close>.
\<close>

record TrackRecordApp =
  trackRecords :: "js_object list"
  filteredRecords :: "js_object list"
  currentFilters :: "(string \<times> string) list"
  searchTerm :: string
  sortField :: string
  sortDirection :: string
  currentPage :: int
  pageSize :: int
  currentEditIndex :: int
  isEditMode :: bool
  shown :: "(string \<times> string) list"

text \<open>The constructor, before \<open>init()\<close>.\<close>

definition new_TrackRecordApp :: TrackRecordApp where
  "new_TrackRecordApp =
     \<lparr>trackRecords = [], filteredRecords = [], currentFilters = [], searchTerm = [],
      sortField = ''Date'', sortDirection = ''desc'', currentPage = 1, pageSize = 50,
      currentEditIndex = - 1, isEditMode = False, shown = []\<rparr>"

text \<open>
  \<open>Utils.sortArray\<close> compares \<open>new Date(...)\<close> values and leaves the order to the engine's
  \<open>Array.prototype.sort\<close> under a comparator that never answers 0. The operations below take
  the function as a parameter: array, field and direction to the sorted copy.
\<close>

type_synonym sorter = "js_object list \<Rightarrow> string \<Rightarrow> string \<Rightarrow> js_object list"

text \<open>\<open>obj[key] = value\<close> on an object kept as the list of its entries.\<close>

fun set_property :: "string \<Rightarrow> string \<Rightarrow> (string \<times> string) list \<Rightarrow> (string \<times> string) list" where
  "set_property k v [] = [(k, v)]"
| "set_property k v ((k', v') # es) =
     (if k' = k then (k, v) # es else (k', v') # set_property k v es)"

definition SEARCH_FIELDS :: "string list" where
  "SEARCH_FIELDS =
     [''Context'', ''Project/Task'', ''Skills & Tools'', ''Outcome/Deliverable'', ''Tags'',
      ''Key Learnings/Challenges'']"

text \<open>The search step of \<open>applyFilters\<close>: \<open>if (this.searchTerm) { ... }\<close>.\<close>

definition apply_search :: "string \<Rightarrow> js_object list \<Rightarrow> js_object list" where
  "apply_search term filtered =
     (if term \<noteq> [] then filterArray filtered term SEARCH_FIELDS else filtered)"

text \<open>The callback of \<open>filtered.filter\<close> in the filter step of \<open>applyFilters\<close>.\<close>

definition matches_filter :: "string \<Rightarrow> string \<Rightarrow> js_object \<Rightarrow> bool" where
  "matches_filter field v record =
     (if field = ''date'' then record field = Some v
      else (case record field of
              None \<Rightarrow> False
            | Some recordValue \<Rightarrow>
                recordValue \<noteq> [] \<and> includes_str (toLowerCase recordValue) (toLowerCase v)))"

text \<open>The filter step: \<open>Object.entries(this.currentFilters).forEach(...)\<close>.\<close>

fun apply_field_filters :: "(string \<times> string) list \<Rightarrow> js_object list \<Rightarrow> js_object list" where
  "apply_field_filters [] filtered = filtered"
| "apply_field_filters ((field, v) # es) filtered =
     apply_field_filters es (if v \<noteq> [] then filter (matches_filter field v) filtered else filtered)"

text \<open>
  \<open>TrackRecordApp.applyFilters\<close>. \<open>renderTable\<close> and \<open>updateCounts\<close> write to the page and
  assign no field.
\<close>

definition applyFilters :: "sorter \<Rightarrow> TrackRecordApp \<Rightarrow> TrackRecordApp" where
  "applyFilters sortArray app =
     (let filtered = apply_search (searchTerm app) (trackRecords app);
          filtered = apply_field_filters (currentFilters app) filtered;
          filtered = sortArray filtered (sortField app) (sortDirection app)
      in app\<lparr>filteredRecords := filtered\<rparr>)"

text \<open>The listeners of \<open>initializeEventListeners\<close>, each with the value of its control.\<close>

definition on_search_input :: "sorter \<Rightarrow> string \<Rightarrow> TrackRecordApp \<Rightarrow> TrackRecordApp" where
  "on_search_input sortArray v app = applyFilters sortArray (app\<lparr>searchTerm := v\<rparr>)"

definition on_status_filter :: "sorter \<Rightarrow> string \<Rightarrow> TrackRecordApp \<Rightarrow> TrackRecordApp" where
  "on_status_filter sortArray v app =
     applyFilters sortArray (app\<lparr>currentFilters := set_property ''status'' v (currentFilters app)\<rparr>)"

definition on_project_filter :: "sorter \<Rightarrow> string \<Rightarrow> TrackRecordApp \<Rightarrow> TrackRecordApp" where
  "on_project_filter sortArray v app =
     applyFilters sortArray (app\<lparr>currentFilters := set_property ''project'' v (currentFilters app)\<rparr>)"

definition on_date_filter :: "sorter \<Rightarrow> string \<Rightarrow> TrackRecordApp \<Rightarrow> TrackRecordApp" where
  "on_date_filter sortArray v app =
     applyFilters sortArray (app\<lparr>currentFilters := set_property ''date'' v (currentFilters app)\<rparr>)"

text \<open>\<open>TrackRecordApp.clearFilters\<close>.\<close>

definition clearFilters :: "sorter \<Rightarrow> TrackRecordApp \<Rightarrow> TrackRecordApp" where
  "clearFilters sortArray app =
     (let app' = applyFilters sortArray (app\<lparr>currentFilters := [], searchTerm := []\<rparr>)
      in app'\<lparr>shown := shown app' @ [(FILTERS_CLEARED, ''success'')]\<rparr>)"

text \<open>\<open>TrackRecordApp.sortByField\<close>.\<close>

definition sortByField :: "sorter \<Rightarrow> string \<Rightarrow> TrackRecordApp \<Rightarrow> TrackRecordApp" where
  "sortByField sortArray field app =
     applyFilters sortArray
       (if sortField app = field
        then app\<lparr>sortDirection := (if sortDirection app = ''asc'' then ''desc'' else ''asc'')\<rparr>
        else app\<lparr>sortField := field, sortDirection := ''desc''\<rparr>)"

text \<open>
  The \<open>change\<close> listener of the page size control in \<open>initializePaginationListeners\<close>, with
  the number that \<open>parseInt\<close> reads; \<open>renderTable\<close> and \<open>updatePagination\<close> assign no field.
\<close>

definition on_page_size_change :: "int \<Rightarrow> TrackRecordApp \<Rightarrow> TrackRecordApp" where
  "on_page_size_change n app = app\<lparr>pageSize := n, currentPage := 1\<rparr>"

text \<open>\<open>TrackRecordApp.goToPage\<close>.\<close>

definition goToPage :: "int \<Rightarrow> TrackRecordApp \<Rightarrow> TrackRecordApp" where
  "goToPage page app = app\<lparr>currentPage := page\<rparr>"

text \<open>\<open>array.slice(start, end)\<close>: a negative index counts from the end, and both are clamped.\<close>

definition relative_index :: "int \<Rightarrow> int \<Rightarrow> nat" where
  "relative_index len i = nat (if i < 0 then max (len + i) 0 else min i len)"

definition slice :: "'a list \<Rightarrow> int \<Rightarrow> int \<Rightarrow> 'a list" where
  "slice xs start stop =
     (let k = relative_index (int (length xs)) start;
          final = relative_index (int (length xs)) stop
      in take (final - k) (drop k xs))"

text \<open>\<open>TrackRecordApp.getPaginatedData\<close>.\<close>

definition getPaginatedData :: "TrackRecordApp \<Rightarrow> js_object list" where
  "getPaginatedData app =
     (let startIndex = (currentPage app - 1) * pageSize app;
          endIndex = startIndex + pageSize app
      in slice (filteredRecords app) startIndex endIndex)"

text \<open>
  \<open>array.splice(index, 1)[0]\<close>: the element removed, if the index (counted from the end when
  negative) meets one, and the array that is left.
\<close>

definition splice_one :: "'a list \<Rightarrow> int \<Rightarrow> 'a option \<times> 'a list" where
  "splice_one xs index =
     (let k = relative_index (int (length xs)) index
      in if k < length xs then (Some (xs ! k), take k xs @ drop (Suc k) xs) else (None, xs))"

definition notify_error :: "js_error \<Rightarrow> TrackRecordApp \<Rightarrow> TrackRecordApp" where
  "notify_error e app = app\<lparr>shown := shown app @ [(message e, ''error'')]\<rparr>"

text \<open>
  \<open>TrackRecordApp.loadTrackRecords\<close>. The \<open>catch\<close> block shows the error and returns.
\<close>

definition loadTrackRecords ::
  "sorter \<Rightarrow> 'n fetch \<Rightarrow> TrackRecordApp \<Rightarrow> GitHubAPI \<Rightarrow> 'n world \<Rightarrow> TrackRecordApp \<times> GitHubAPI \<times> 'n world" where
  "loadTrackRecords sortArray fetch app a w =
     (case getCSVContent fetch False a w of
        (Inl e, a', w') \<Rightarrow> (notify_error e app, a', w')
      | (Inr csvContent, a', w') \<Rightarrow>
          (applyFilters sortArray (app\<lparr>trackRecords := sortArray (csvToArray csvContent) ''Date'' ''desc''\<rparr>),
           a', w'))"

definition TYPE_ERROR_DELETED :: string where
  "TYPE_ERROR_DELETED = ''Cannot read properties of undefined (reading 'Project/Task')''"

text \<open>
  \<open>TrackRecordApp.deleteEntry\<close>. When \<open>splice\<close> removes nothing, \<open>deletedEntry\<close> is
  \<open>undefined\<close> and building the commit message throws, before the write. The \<open>catch\<close> block
  shows the error and returns. \<open>updateFilterOptions\<close> writes to the page only.
\<close>

definition deleteEntry ::
  "sorter \<Rightarrow> 'n fetch \<Rightarrow> int \<Rightarrow> TrackRecordApp \<Rightarrow> GitHubAPI \<Rightarrow> 'n world \<Rightarrow> TrackRecordApp \<times> GitHubAPI \<times> 'n world" where
  "deleteEntry sortArray fetch index app a w =
     (case getCSVContent fetch False a w of
        (Inl e, a', w') \<Rightarrow> (notify_error e app, a', w')
      | (Inr currentContent, a', w') \<Rightarrow>
          (case splice_one (csvToArray currentContent) index of
             (None, currentData) \<Rightarrow> (notify_error (Error TYPE_ERROR_DELETED) app, a', w')
           | (Some deletedEntry, currentData) \<Rightarrow>
               (let newContent = arrayToCSV currentData;
                    commitMessage = ''Delete track record entry: ''
                                      @ template_value (deletedEntry ''Project/Task'')
                                      @ '' - '' @ template_value (deletedEntry ''Date'')
                in case updateCSVContent fetch a' newContent commitMessage w' of
                     (Inl e, a'', w'') \<Rightarrow> (notify_error e app, a'', w'')
                   | (Inr ok, a'', w'') \<Rightarrow>
                       loadTrackRecords sortArray fetch
                         (app\<lparr>shown := shown app @ [(''Entry deleted successfully!'', ''success'')]\<rparr>)
                         a'' w'')))"


section \<open>The remote store\<close>

text \<open>
  Modelled from the spec: the remote store that answers the client is not part of the
  repository. This is the contract that the specification gives for it: one blob, held with
  its revision token; a read of the blob answers with its transport-encoded content and its
  token, or reports that it is not found; a write creates the blob when there is none, replaces
  it when the submitted token is the current one, and is rejected as a conflict otherwise;
  every accepted write issues a new token.
\<close>

record remote_store =
  blob :: "(string \<times> string) option"
  issued :: nat

definition accept_write :: "remote_store \<Rightarrow> put_body \<Rightarrow> fetch_result \<times> remote_store" where
  "accept_write st b =
     (let new_sha = ''rev'' @ show_nat (issued st)
      in (Response (if blob st = None then 201 else 200) (if blob st = None then ''Created'' else ''OK'')
            (Inr (CommitDocument new_sha)),
          st\<lparr>blob := Some (body_content b, new_sha), issued := Suc (issued st)\<rparr>))"

definition store_fetch :: "remote_store fetch" where
  "store_fetch st rq =
     (case req_method rq of
        GET \<Rightarrow>
          (case blob st of
             None \<Rightarrow> (Response 404 ''Not Found'' (Inr OtherDocument), st)
           | Some (content, token) \<Rightarrow> (Response 200 ''OK'' (Inr (FileDocument ''file'' content token)), st))
      | PUT \<Rightarrow>
          (case req_body rq of
             None \<Rightarrow> (Response 422 ''Unprocessable Entity'' (Inr OtherDocument), st)
           | Some b \<Rightarrow>
               (case blob st of
                  None \<Rightarrow> accept_write st b
                | Some (content, token) \<Rightarrow>
                    if body_sha b = Some token then accept_write st b
                    else (Response 409 ''Conflict'' (Inr OtherDocument), st))))"

text \<open>
  The same store behind an authorization check on writes: a \<open>PUT\<close> without an
  \<open>Authorization\<close> header is answered 401.
\<close>

definition authorizing_fetch :: "remote_store fetch" where
  "authorizing_fetch st rq =
     (if req_method rq = PUT \<and> ''Authorization'' \<notin> set (map fst (req_headers rq))
      then (Response 401 ''Unauthorized'' (Inr OtherDocument), st)
      else store_fetch st rq)"


section \<open>Examples and predicates of the properties\<close>

text \<open>A string that neither begins nor ends with white space.\<close>

definition trimmed :: "string \<Rightarrow> bool" where
  "trimmed s \<longleftrightarrow> s = [] \<or> (\<not> isWhiteSpace (hd s) \<and> \<not> isWhiteSpace (last s))"

text \<open>
  A field value that the codec carries unchanged: no double quote, no line feed, no white
  space at either end.
\<close>

definition plain_value :: "string \<Rightarrow> bool" where
  "plain_value v \<longleftrightarrow> DQUOTE \<notin> set v \<and> LF \<notin> set v \<and> trimmed v"

text \<open>
  What a record looks like after a round trip: exactly the ten canonical fields, each with the
  trimmed value of the record (empty when the record lacks the field).
\<close>

definition canonical :: "js_object \<Rightarrow> js_object" where
  "canonical row = (\<lambda>k. if k \<in> set CSV_HEADERS then Some (trim (or_empty (row k))) else None)"

text \<open>An object none of whose property names and values begins or ends with white space.\<close>

definition trimmed_object :: "js_object \<Rightarrow> bool" where
  "trimmed_object obj \<longleftrightarrow> (\<forall>k v. obj k = Some v \<longrightarrow> trimmed k \<and> trimmed v)"

text \<open>A record with the ten canonical fields, from the list of their values.\<close>

definition record_of :: "string list \<Rightarrow> js_object" where
  "record_of vs = map_of (zip CSV_HEADERS vs)"

definition quote_free :: "js_object \<Rightarrow> bool" where
  "quote_free row = list_all (\<lambda>h. DQUOTE \<notin> set (or_empty (row h))) CSV_HEADERS"

text \<open>The text of the decoding example: the header line and one line with a quoted field.\<close>

definition example_csv :: string where
  "example_csv =
     header_line @ [LF] @ ''2024-01-01,'' @ [DQUOTE] @ ''did a, thing'' @ [DQUOTE]
       @ '',Proj,JS,Shipped,2h,Learned X,Next Y,Completed,tag1''"

definition example_record :: js_object where
  "example_record =
     record_of [''2024-01-01'', ''did a, thing'', ''Proj'', ''JS'', ''Shipped'', ''2h'', ''Learned X'',
                ''Next Y'', ''Completed'', ''tag1'']"

text \<open>A record whose Context begins with a space.\<close>

definition padded_record :: js_object where
  "padded_record =
     record_of [''2024-01-01'', '' x'', ''Proj'', ''JS'', ''Shipped'', ''2h'', ''Learned X'',
                ''Next Y'', ''Completed'', ''tag1'']"

text \<open>A text with white space around header names and around values, also inside quotes.\<close>

definition spaced_csv :: string where
  "spaced_csv = '' Date , Context '' @ [LF] @ ''  2024-01-01 ,'' @ [DQUOTE] @ '' padded '' @ [DQUOTE]"

text \<open>
  The search condition as the specification words it: at least one of the six fields of the
  record contains the term, letter case apart.
\<close>

definition field_contains :: "js_object \<Rightarrow> string \<Rightarrow> string \<Rightarrow> bool" where
  "field_contains record term field =
     (case record field of
        None \<Rightarrow> False
      | Some v \<Rightarrow> sublist (toLowerCase term) (toLowerCase v))"

definition matches_search :: "string \<Rightarrow> js_object \<Rightarrow> bool" where
  "matches_search term record = list_ex (field_contains record term) SEARCH_FIELDS"

text \<open>A sorter that leaves the order as it is, for the examples.\<close>

definition keep_order :: sorter where
  "keep_order array field direction = array"

text \<open>
  A view of thirty records in pages of ten, showing the third page.
\<close>

definition paged_app :: TrackRecordApp where
  "paged_app =
     new_TrackRecordApp\<lparr>trackRecords := replicate 30 example_record,
       filteredRecords := replicate 30 example_record, pageSize := 10, currentPage := 3\<rparr>"

text \<open>
  The characters that \<open>btoa\<close> writes before the padding, the padding itself, and the
  position of a character in the alphabet (0 outside it).
\<close>

fun b64_body :: "nat list \<Rightarrow> string" where
  "b64_body (a # b # c # rest) =
     b64_char (a div 4) # b64_char ((a mod 4) * 16 + b div 16) #
     b64_char ((b mod 16) * 4 + c div 64) # b64_char (c mod 64) # b64_body rest"
| "b64_body [a, b] = [b64_char (a div 4), b64_char ((a mod 4) * 16 + b div 16), b64_char ((b mod 16) * 4)]"
| "b64_body [a] = [b64_char (a div 4), b64_char ((a mod 4) * 16)]"
| "b64_body [] = []"

fun b64_pad :: "nat list \<Rightarrow> string" where
  "b64_pad (a # b # c # rest) = b64_pad rest"
| "b64_pad [a, b] = [CHR ''='']"
| "b64_pad [a] = [CHR ''='', CHR ''='']"
| "b64_pad [] = []"

definition sextet_of :: "char \<Rightarrow> nat" where
  "sextet_of c = (case b64_index c of None \<Rightarrow> 0 | Some n \<Rightarrow> n)"

text \<open>A configured client with an empty cache, as the constructor leaves it.\<close>

definition example_api :: GitHubAPI where
  "example_api = new_GitHubAPI ''alice'' ''journal'' ''track_records.csv''"

text \<open>A world whose store holds no blob.\<close>

definition empty_world :: "remote_store world" where
  "empty_world = \<lparr>clock = 1000, requests = [], net = \<lparr>blob = None, issued = 0\<rparr>\<rparr>"

text \<open>A world whose store holds the header line only, under the token \<open>rev0\<close>.\<close>

definition seeded_world :: "remote_store world" where
  "seeded_world =
     \<lparr>clock = 1000, requests = [],
      net = \<lparr>blob = Some (btoa (header_line @ [LF]), ''rev0''), issued = 1\<rparr>\<rparr>"

text \<open>
  A client whose cache holds the token \<open>rev0\<close>, and a world whose store has moved on to
  \<open>rev1\<close>.
\<close>

definition stale_api :: GitHubAPI where
  "stale_api =
     example_api\<lparr>base64Content := Some (btoa (header_line @ [LF])), sha := Some ''rev0'',
       lastFetch := Some 1000\<rparr>"

definition moved_world :: "remote_store world" where
  "moved_world =
     \<lparr>clock = 2000, requests = [], net = \<lparr>blob = Some (btoa example_csv, ''rev1''), issued = 2\<rparr>\<rparr>"





text \<open>
  An entry whose Context has two lines, its appending to the seeded store, and the deletion
  of index 0, the index at which it was appended.
\<close>

definition newline_entry :: js_object where
  "newline_entry =
     record_of [''2024-01-01'', ''line one'' @ [LF] @ ''line two'', ''Proj'', ''JS'', ''Shipped'', ''2h'',
                ''Learned X'', ''Next Y'', ''Completed'', ''tag1'']"

definition after_append :: "(js_error + bool) \<times> GitHubAPI \<times> remote_store world" where
  "after_append = appendEntry store_fetch example_api newline_entry seeded_world"

definition after_delete :: "TrackRecordApp \<times> GitHubAPI \<times> remote_store world" where
  "after_delete =
     deleteEntry keep_order store_fetch 0 new_TrackRecordApp (fst (snd after_append)) (snd (snd after_append))"

text \<open>
  What \<open>splice\<close> leaves at the deletion, and the text that the deletion writes to the store.
\<close>

definition remaining :: "js_object list" where
  "remaining = snd (splice_one (csvToArray (arrayToCSV [newline_entry])) 0)"

definition stored_after :: string where
  "stored_after = arrayToCSV remaining"


section \<open>Properties of the string operations\<close>

lemma join_CSV_HEADERS: "join CSV_HEADERS [COMMA] = header_line"
  by (simp add: CSV_HEADERS_def header_line_def COMMA_def)

lemma dropWhile_id: "s \<noteq> [] \<Longrightarrow> \<not> P (hd s) \<Longrightarrow> dropWhile P s = s"
  by (cases s) auto

lemma trim_id: "trimmed s \<Longrightarrow> trim s = s"
proof (cases "s = []")
  case True
  then show ?thesis by (simp add: trim_def)
next
  case False
  assume "trimmed s"
  with False have h: "\<not> isWhiteSpace (hd s)" and l: "\<not> isWhiteSpace (last s)"
    by (auto simp: trimmed_def)
  have "dropWhile isWhiteSpace s = s" using False h by (rule dropWhile_id)
  moreover have "dropWhile isWhiteSpace (rev s) = rev s"
    using False l by (intro dropWhile_id) (auto simp: hd_rev)
  ultimately show ?thesis by (simp add: trim_def)
qed

lemma last_dropWhile: "dropWhile P xs \<noteq> [] \<Longrightarrow> last (dropWhile P xs) = last xs"
  by (induction xs) (auto split: if_splits)

lemma trimmed_trim: "trimmed (trim s)"
proof -
  let ?a = "dropWhile isWhiteSpace s"
  let ?b = "dropWhile isWhiteSpace (rev ?a)"
  show ?thesis
  proof (cases "?b = []")
    case True
    then show ?thesis by (simp add: trim_def trimmed_def)
  next
    case False
    then have hb: "\<not> isWhiteSpace (hd ?b)" by (rule hd_dropWhile)
    have an: "?a \<noteq> []"
    proof
      assume "?a = []"
      then have "?b = []" by (metis dropWhile.simps(1) rev.simps(1))
      with False show False ..
    qed
    then have ha: "\<not> isWhiteSpace (hd ?a)" by (rule hd_dropWhile)
    have "last ?b = last (rev ?a)" using False by (rule last_dropWhile)
    then have "last ?b = hd ?a" using an by (simp only: last_rev)
    then have "\<not> isWhiteSpace (hd (rev ?b))" using ha False by (simp add: hd_rev)
    moreover have "\<not> isWhiteSpace (last (rev ?b))" using hb False by (simp add: last_rev)
    ultimately show ?thesis by (simp add: trim_def trimmed_def)
  qed
qed

lemma trim_nonempty: "c \<in> set s \<Longrightarrow> \<not> isWhiteSpace c \<Longrightarrow> trim s \<noteq> []"
proof
  assume c: "c \<in> set s" "\<not> isWhiteSpace c" and e: "trim s = []"
  from e have "dropWhile isWhiteSpace (rev (dropWhile isWhiteSpace s)) = []"
    by (simp add: trim_def)
  then have "\<forall>x\<in>set (dropWhile isWhiteSpace s). isWhiteSpace x"
    by simp
  moreover have "dropWhile isWhiteSpace s \<noteq> []" using c by auto
  then have "\<not> isWhiteSpace (hd (dropWhile isWhiteSpace s))" by (rule hd_dropWhile)
  moreover have "hd (dropWhile isWhiteSpace s) \<in> set (dropWhile isWhiteSpace s)"
    using \<open>dropWhile isWhiteSpace s \<noteq> []\<close> by simp
  ultimately show False by blast
qed

lemma split_from_none: "sep \<notin> set l \<Longrightarrow> split_from sep p l = [p @ l]"
  by (induction l arbitrary: p) auto

lemma split_from_piece:
  "sep \<notin> set l \<Longrightarrow> split_from sep p (l @ sep # rest) = (p @ l) # split_from sep [] rest"
  by (induction l arbitrary: p) auto

lemma split_join:
  "ls \<noteq> [] \<Longrightarrow> \<forall>l\<in>set ls. sep \<notin> set l \<Longrightarrow> split_from sep [] (join ls [sep]) = ls"
proof (induction ls "[sep]" rule: join.induct)
  case 1
  then show ?case by simp
next
  case (2 x)
  then show ?case by (simp add: split_from_none)
next
  case (3 x y ys)
  then show ?case using split_from_piece [of sep x "[]" "join (y # ys) [sep]"] by simp
qed

lemma replace_quotes_id: "DQUOTE \<notin> set v \<Longrightarrow> replace_quotes v = v"
  by (induction v) auto

lemma includes_str_single: "includes_str s [c] \<longleftrightarrow> c \<in> set s"
  by (induction s) auto

lemma loop_plain:
  "DQUOTE \<notin> set v \<Longrightarrow> COMMA \<notin> set v \<or> q \<Longrightarrow>
   parseCSVLine_loop (v @ rest) res cur q = parseCSVLine_loop rest res (cur @ v) q"
  by (induction v arbitrary: cur) auto

lemma loop_field:
  assumes "DQUOTE \<notin> set (or_empty (row h))"
  shows "parseCSVLine_loop (csv_field row h @ rest) res cur False =
         parseCSVLine_loop rest res (cur @ or_empty (row h)) False"
proof -
  let ?v = "or_empty (row h)"
  show ?thesis
  proof (cases "COMMA \<in> set ?v \<or> LF \<in> set ?v")
    case True
    then have "csv_field row h = DQUOTE # ?v @ [DQUOTE]"
      using assms by (simp add: csv_field_def replace_quotes_id includes_str_single)
    then have "parseCSVLine_loop (csv_field row h @ rest) res cur False =
               parseCSVLine_loop (?v @ DQUOTE # rest) res cur True" by simp
    also have "\<dots> = parseCSVLine_loop (DQUOTE # rest) res (cur @ ?v) True"
      using assms by (simp add: loop_plain)
    finally show ?thesis by simp
  next
    case False
    then have "csv_field row h = ?v"
      using assms by (simp add: csv_field_def replace_quotes_id includes_str_single)
    then show ?thesis using assms False by (simp add: loop_plain)
  qed
qed

lemma DQUOTE_COMMA: "DQUOTE \<noteq> COMMA" "COMMA \<noteq> DQUOTE"
  by (simp_all add: DQUOTE_def COMMA_def)

lemma loop_join:
  "hs \<noteq> [] \<Longrightarrow> \<forall>h\<in>set hs. DQUOTE \<notin> set (or_empty (row h)) \<Longrightarrow>
   parseCSVLine_loop (join (map (csv_field row) hs) [COMMA]) res [] False =
   res @ map (\<lambda>h. trim (or_empty (row h))) hs"
proof (induction hs arbitrary: res)
  case Nil
  then show ?case by simp
next
  case (Cons h hs)
  show ?case
  proof (cases hs)
    case Nil
    then show ?thesis using Cons.prems loop_field [of row h "[]" res "[]"] by simp
  next
    case (Cons h' hs')
    have "parseCSVLine_loop (join (map (csv_field row) (h # hs)) [COMMA]) res [] False =
          parseCSVLine_loop (csv_field row h @ COMMA # join (map (csv_field row) hs) [COMMA]) res [] False"
      using Cons by simp
    also have "\<dots> = parseCSVLine_loop (COMMA # join (map (csv_field row) hs) [COMMA]) res (or_empty (row h)) False"
      using Cons.prems loop_field [of row h _ res "[]"] by simp
    also have "\<dots> = parseCSVLine_loop (join (map (csv_field row) hs) [COMMA]) (res @ [trim (or_empty (row h))]) [] False"
      by (simp add: DQUOTE_COMMA)
    also have "\<dots> = (res @ [trim (or_empty (row h))]) @ map (\<lambda>h. trim (or_empty (row h))) hs"
      using Cons.prems Cons by (intro Cons.IH) auto
    finally show ?thesis by simp
  qed
qed

lemma parseCSVLine_csv_line:
  "\<forall>h\<in>set CSV_HEADERS. DQUOTE \<notin> set (or_empty (row h)) \<Longrightarrow>
   parseCSVLine (csv_line row) = map (\<lambda>h. trim (or_empty (row h))) CSV_HEADERS"
  using loop_join [of CSV_HEADERS row "[]"]
  by (simp add: parseCSVLine_def csv_line_def) (simp add: CSV_HEADERS_def)

lemma assign_columns_map:
  "distinct hs \<Longrightarrow> length pre = i \<Longrightarrow>
   assign_columns hs i (pre @ map f hs) obj = (\<lambda>k. if k \<in> set hs then Some (f k) else obj k)"
proof (induction hs arbitrary: i pre obj)
  case Nil
  then show ?case by simp
next
  case (Cons h hs)
  have "assign_columns hs (Suc i) ((pre @ [f h]) @ map f hs) (obj(h \<mapsto> f h)) =
        (\<lambda>k. if k \<in> set hs then Some (f k) else (obj(h \<mapsto> f h)) k)"
    using Cons.prems by (intro Cons.IH) auto
  moreover have "value_at (pre @ f h # map f hs) i = f h"
    using Cons.prems by (simp add: value_at_def nth_append)
  ultimately show ?case by (auto simp: fun_eq_iff)
qed

lemma distinct_CSV_HEADERS: "distinct CSV_HEADERS"
  by (simp add: CSV_HEADERS_def)

lemma COMMA_in_csv_line: "COMMA \<in> set (csv_line row)"
  by (simp add: csv_line_def CSV_HEADERS_def)

lemma not_ws_COMMA: "\<not> isWhiteSpace COMMA"
  by (simp add: isWhiteSpace_def COMMA_def)

lemma not_ws_DQUOTE: "\<not> isWhiteSpace DQUOTE"
  by (simp add: isWhiteSpace_def DQUOTE_def)

lemma csvToArray_rows_csv_lines:
  "\<forall>row\<in>set c. \<forall>h\<in>set CSV_HEADERS. DQUOTE \<notin> set (or_empty (row h)) \<Longrightarrow>
   csvToArray_rows CSV_HEADERS (map csv_line c) = map canonical c"
proof (induction c)
  case Nil
  then show ?case by simp
next
  case (Cons row c)
  have ne: "trim (csv_line row) \<noteq> []"
    using COMMA_in_csv_line not_ws_COMMA by (rule trim_nonempty)
  have "parseCSVLine (csv_line row) = map (\<lambda>h. trim (or_empty (row h))) CSV_HEADERS"
    using Cons.prems by (intro parseCSVLine_csv_line) simp
  then have "assign_columns CSV_HEADERS 0 (parseCSVLine (csv_line row)) Map.empty = canonical row"
    using assign_columns_map [OF distinct_CSV_HEADERS, of "[]" 0 "\<lambda>h. trim (or_empty (row h))" Map.empty]
    by (simp add: canonical_def)
  then show ?case using ne Cons by simp
qed

lemma split_header_line: "map trim (split header_line COMMA) = CSV_HEADERS"
  by (simp add: header_line_def split_def COMMA_def CSV_HEADERS_def trim_def isWhiteSpace_def)

lemma join_snoc: "xs \<noteq> [] \<Longrightarrow> join (xs @ [y]) sep = join xs sep @ sep @ y"
  by (induction xs sep rule: join.induct) auto

lemma csv_field_plain: "plain_value (or_empty (row h)) \<Longrightarrow> trimmed (csv_field row h)"
  by (auto simp: plain_value_def csv_field_def Let_def replace_quotes_id includes_str_single trimmed_def not_ws_DQUOTE)

lemma trimmed_csv_line:
  assumes "plain_value (or_empty (row ''Tags''))"
  shows "csv_line row \<noteq> [] \<and> \<not> isWhiteSpace (last (csv_line row))"
proof -
  have "csv_line row = join (map (csv_field row) (butlast CSV_HEADERS)) [COMMA] @ [COMMA] @ csv_field row ''Tags''"
    unfolding csv_line_def using join_snoc [of "map (csv_field row) (butlast CSV_HEADERS)" "csv_field row ''Tags''" "[COMMA]"]
    by (simp add: CSV_HEADERS_def)
  then obtain p where p: "csv_line row = p @ COMMA # csv_field row ''Tags''" by simp
  show ?thesis
  proof (cases "csv_field row ''Tags'' = []")
    case True
    then show ?thesis using p by (simp add: not_ws_COMMA)
  next
    case False
    then show ?thesis using p assms csv_field_plain [of row "''Tags''"] by (simp add: trimmed_def)
  qed
qed

lemma last_join:
  "ls \<noteq> [] \<Longrightarrow> last ls \<noteq> [] \<Longrightarrow> join ls sep \<noteq> [] \<and> last (join ls sep) = last (last ls)"
  by (induction ls sep rule: join.induct) auto

lemma hd_header_line: "header_line \<noteq> [] \<and> \<not> isWhiteSpace (hd header_line) \<and> \<not> isWhiteSpace (last header_line) \<and> LF \<notin> set header_line"
  by (simp add: header_line_def isWhiteSpace_def LF_def)

lemma LF_csv_line:
  assumes "\<forall>h\<in>set CSV_HEADERS. plain_value (or_empty (row h))"
  shows "LF \<notin> set (csv_line row)"
proof -
  have "LF \<notin> set (csv_field row h)" if "h \<in> set CSV_HEADERS" for h
    using assms that
    by (auto simp: plain_value_def csv_field_def Let_def replace_quotes_id includes_str_single LF_def DQUOTE_def)
  then show ?thesis
    by (simp add: csv_line_def CSV_HEADERS_def LF_def COMMA_def)
qed

lemma arrayToCSV_trimmed:
  assumes "c \<noteq> []" "\<forall>row\<in>set c. \<forall>h\<in>set CSV_HEADERS. plain_value (or_empty (row h))"
  shows "trim (arrayToCSV c) = arrayToCSV c"
proof -
  let ?ls = "header_line # map csv_line c"
  have t: "''Tags'' \<in> set CSV_HEADERS" by (simp add: CSV_HEADERS_def)
  have lc: "last c \<in> set c" using assms(1) by simp
  have l: "last ?ls = csv_line (last c)" using assms(1) by (simp add: last_map)
  have tl: "csv_line (last c) \<noteq> [] \<and> \<not> isWhiteSpace (last (csv_line (last c)))"
    using assms(2) lc t by (intro trimmed_csv_line) blast
  then have "join ?ls [LF] \<noteq> [] \<and> last (join ?ls [LF]) = last (last ?ls)"
    using l by (intro last_join) simp_all
  moreover have "hd (join ?ls [LF]) = hd header_line"
    using assms(1) hd_header_line by (cases c) simp_all
  ultimately have "trimmed (join ?ls [LF])"
    using tl l hd_header_line by (simp add: trimmed_def)
  then show ?thesis using assms(1) by (simp add: arrayToCSV_def join_CSV_HEADERS trim_id)
qed

lemma csvToArray_arrayToCSV_canonical:
  assumes "\<forall>row\<in>set c. \<forall>h\<in>set CSV_HEADERS. plain_value (or_empty (row h))"
  shows "csvToArray (arrayToCSV c) = map canonical c"
proof (cases "c = []")
  case True
  have "trim (header_line @ [LF]) = header_line"
    by (simp add: header_line_def LF_def trim_def isWhiteSpace_def)
  then show ?thesis using True hd_header_line
    by (simp add: csvToArray_def arrayToCSV_def join_CSV_HEADERS split_def split_from_none split_header_line)
next
  case False
  let ?ls = "header_line # map csv_line c"
  have "\<forall>l\<in>set ?ls. LF \<notin> set l"
    using assms hd_header_line LF_csv_line by auto
  then have sp: "split (join ?ls [LF]) LF = ?ls"
    unfolding split_def by (intro split_join) simp_all
  have q: "\<forall>row\<in>set c. \<forall>h\<in>set CSV_HEADERS. DQUOTE \<notin> set (or_empty (row h))"
    using assms by (simp add: plain_value_def)
  have ne: "arrayToCSV c \<noteq> []" using False hd_header_line
    by (cases c) (simp_all add: arrayToCSV_def join_CSV_HEADERS)
  have "csvToArray (arrayToCSV c) = csvToArray_rows CSV_HEADERS (map csv_line c)"
    using ne arrayToCSV_trimmed [OF False assms] sp False
    by (simp add: csvToArray_def) (simp add: arrayToCSV_def join_CSV_HEADERS split_header_line)
  then show ?thesis using csvToArray_rows_csv_lines [OF q] by simp
qed

lemma canonical_id:
  assumes "dom row = set CSV_HEADERS" "\<forall>h\<in>set CSV_HEADERS. plain_value (or_empty (row h))"
  shows "canonical row = row"
proof
  fix k
  show "canonical row k = row k"
  proof (cases "k \<in> set CSV_HEADERS")
    case True
    then obtain v where v: "row k = Some v" using assms(1) by auto
    then have "trimmed v" using assms(2) True by (auto simp: plain_value_def or_empty_def)
    then show ?thesis using True v by (simp add: canonical_def or_empty_def trim_id)
  next
    case False
    then have "row k = None" using assms(1) by auto
    then show ?thesis using False by (simp add: canonical_def)
  qed
qed


section \<open>Properties of the record codec\<close>

text \<open>
  C9. Encoding the empty collection yields exactly the canonical header line of ten columns
  followed by one line feed, and nothing else.
\<close>

theorem arrayToCSV_empty:
  "arrayToCSV [] =
     ''Date,Context,Project/Task,Skills & Tools,Outcome/Deliverable,Time Spent,Key Learnings/Challenges,Next Steps,Status,Tags''
       @ [LF]"
  by (simp add: arrayToCSV_def CSV_HEADERS_def COMMA_def)

text \<open>
  C7. Decoding the text made of the canonical header line and the line
  \<open>2024-01-01,"did a, thing",Proj,JS,Shipped,2h,Learned X,Next Y,Completed,tag1\<close> produces
  exactly one record; its Context is \<open>did a, thing\<close>, with the comma kept and the quotes
  removed, and its Project/Task is \<open>Proj\<close>.
\<close>

theorem csvToArray_example:
  "length (csvToArray example_csv) = 1 \<and>
   (csvToArray example_csv ! 0) ''Context'' = Some ''did a, thing'' \<and>
   (csvToArray example_csv ! 0) ''Project/Task'' = Some ''Proj''"
  by code_simp

text \<open>
  C1, as the specification states it, fails: a value that begins with a space has no double
  quote in it, and comes back from the round trip without the space.
\<close>

theorem roundtrip_counterexample:
  "quote_free padded_record \<and> csvToArray (arrayToCSV [padded_record]) \<noteq> [padded_record]"
proof -
  have q: "quote_free padded_record"
    by code_simp
  have "(csvToArray (arrayToCSV [padded_record]) ! 0) ''Context'' = Some ''x''"
    by code_simp
  moreover have "([padded_record] ! 0) ''Context'' = Some '' x''"
    by code_simp
  ultimately have "csvToArray (arrayToCSV [padded_record]) \<noteq> [padded_record]"
    by auto
  with q show ?thesis ..
qed

lemma dom_record_of: "length vs = length CSV_HEADERS \<Longrightarrow> dom (record_of vs) = set CSV_HEADERS"
  by (simp add: record_of_def)

text \<open>
  C1, amended. For every collection of records that carry exactly the ten canonical fields,
  with values that contain no double quote and no line feed and that neither begin nor end
  with white space, decoding the encoded text gives the collection back, record for record and
  field for field, in order.
\<close>

theorem decode_encode_roundtrip:
  assumes "\<forall>row\<in>set c. dom row = set CSV_HEADERS \<and> (\<forall>h\<in>set CSV_HEADERS. plain_value (or_empty (row h)))"
  shows "csvToArray (arrayToCSV c) = c"
proof -
  have p: "\<forall>row\<in>set c. \<forall>h\<in>set CSV_HEADERS. plain_value (or_empty (row h))"
    using assms by simp
  have "csvToArray (arrayToCSV c) = map canonical c"
    using p by (rule csvToArray_arrayToCSV_canonical)
  also have "\<dots> = c"
  proof (rule map_idI)
    fix row
    assume "row \<in> set c"
    then show "canonical row = row"
      using assms by (intro canonical_id) simp_all
  qed
  finally show ?thesis .
qed

theorem decode_encode_roundtrip_witness:
  "dom example_record = set CSV_HEADERS \<and>
   list_all (\<lambda>h. plain_value (or_empty (example_record h))) CSV_HEADERS \<and>
   csvToArray (arrayToCSV [example_record]) = [example_record]"
proof -
  have d: "dom example_record = set CSV_HEADERS"
    unfolding example_record_def by (rule dom_record_of) (simp add: CSV_HEADERS_def)
  have p: "\<forall>h\<in>set CSV_HEADERS. plain_value (or_empty (example_record h))"
    by (simp add: example_record_def record_of_def CSV_HEADERS_def or_empty_def plain_value_def
        trimmed_def isWhiteSpace_def DQUOTE_def LF_def)
  have h: "\<forall>row\<in>set [example_record]. dom row = set CSV_HEADERS \<and>
      (\<forall>h\<in>set CSV_HEADERS. plain_value (or_empty (row h)))"
    using d p by simp
  from decode_encode_roundtrip [OF h] d p show ?thesis by (simp add: list_all_iff)
qed

lemma loop_trimmed:
  "\<forall>v\<in>set res. trimmed v \<Longrightarrow> \<forall>v\<in>set (parseCSVLine_loop l res cur q). trimmed v"
  by (induction l res cur q rule: parseCSVLine_loop.induct) (auto simp: trimmed_trim)

lemma parseCSVLine_trimmed: "\<forall>v\<in>set (parseCSVLine l). trimmed v"
  unfolding parseCSVLine_def by (rule loop_trimmed) simp

lemma value_at_trimmed: "\<forall>v\<in>set vs. trimmed v \<Longrightarrow> trimmed (value_at vs i)"
  by (simp add: value_at_def trimmed_def)

lemma assign_columns_trimmed:
  "\<forall>h\<in>set hs. trimmed h \<Longrightarrow> \<forall>v\<in>set vs. trimmed v \<Longrightarrow> trimmed_object obj \<Longrightarrow>
   trimmed_object (assign_columns hs i vs obj)"
proof (induction hs i vs obj rule: assign_columns.induct)
  case (1 i vs obj)
  then show ?case by simp
next
  case (2 h hs i vs obj)
  have "trimmed_object (obj(h \<mapsto> value_at vs i))"
    using "2.prems" value_at_trimmed [of vs i] by (auto simp: trimmed_object_def)
  then have "trimmed_object (assign_columns hs (Suc i) vs (obj(h \<mapsto> value_at vs i)))"
    using "2.prems" by (intro "2.IH") (simp_all add: fun_upd_def)
  then show ?case by simp
qed

lemma csvToArray_rows_trimmed:
  "\<forall>h\<in>set hs. trimmed h \<Longrightarrow> \<forall>row\<in>set (csvToArray_rows hs ls). trimmed_object row"
proof (induction ls)
  case Nil
  then show ?case by simp
next
  case (Cons l ls)
  have "trimmed_object (assign_columns hs 0 (parseCSVLine l) Map.empty)"
    using Cons.prems parseCSVLine_trimmed by (intro assign_columns_trimmed) (simp_all add: trimmed_object_def)
  then show ?case using Cons by simp
qed

lemma csvToArray_trimmed: "\<forall>row\<in>set (csvToArray csv). trimmed_object row"
proof (cases "split (trim csv) LF")
  case Nil
  then show ?thesis by (simp add: csvToArray_def)
next
  case (Cons l0 ls)
  have "\<forall>row\<in>set (csvToArray_rows (map trim (split l0 COMMA)) ls). trimmed_object row"
    by (rule csvToArray_rows_trimmed) (simp add: trimmed_trim)
  then show ?thesis using Cons by (simp add: csvToArray_def)
qed

text \<open>
  C10. Decoding strips the white space at both ends of every field value and of every header
  name: in every record that \<open>csvToArray\<close> produces, from any text, no field name and no
  field value begins or ends with a white space character; this holds for values that were
  written inside quotes as well.
\<close>

theorem decoded_fields_trimmed:
  assumes "row \<in> set (csvToArray csv)" and "row k = Some v"
  shows "trimmed k \<and> trimmed v"
  using assms csvToArray_trimmed [of csv] by (auto simp: trimmed_object_def)

theorem decoded_fields_trimmed_witness:
  "csvToArray spaced_csv ! 0 \<in> set (csvToArray spaced_csv) \<and>
   (csvToArray spaced_csv ! 0) ''Context'' = Some ''padded'' \<and>
   trimmed ''Context'' \<and> trimmed ''padded''"
proof -
  have l: "length (csvToArray spaced_csv) = 1"
    by code_simp
  then have m: "csvToArray spaced_csv ! 0 \<in> set (csvToArray spaced_csv)" by simp
  have c: "(csvToArray spaced_csv ! 0) ''Context'' = Some ''padded''"
    by code_simp
  from decoded_fields_trimmed [OF m c] m c show ?thesis by simp
qed


section \<open>Properties of the query engine\<close>

text \<open>
  C3, as the specification states it, fails in both halves. On the third page of thirty
  records, a new search term leaves the view on page 3; and a change of the page size from 10
  to 5, under which page 3 is still in range, puts the view on page 1.
\<close>

theorem page_index_counterexample:
  "currentPage paged_app = 3 \<and>
   currentPage (on_search_input keep_order ''x'' paged_app) = 3 \<and>
   (3 - 1) * 5 < int (length (filteredRecords paged_app)) \<and>
   currentPage (on_page_size_change 5 paged_app) = 1"
  by (simp add: paged_app_def new_TrackRecordApp_def on_search_input_def applyFilters_def
      on_page_size_change_def)

text \<open>
  C3, amended. A change of the search term, of a field filter or of the sort field or
  direction, and clearing the filters, leave the current page index as it is:
  \<open>applyFilters\<close> never assigns it. A change of the page size sets the current page index
  to 1, whether or not the old index is still in range.
\<close>

theorem page_index_after_changes:
  "currentPage (on_search_input sortArray v app) = currentPage app \<and>
   currentPage (on_status_filter sortArray v app) = currentPage app \<and>
   currentPage (on_project_filter sortArray v app) = currentPage app \<and>
   currentPage (on_date_filter sortArray v app) = currentPage app \<and>
   currentPage (clearFilters sortArray app) = currentPage app \<and>
   currentPage (sortByField sortArray field app) = currentPage app \<and>
   currentPage (on_page_size_change n app) = 1"
  by (simp add: on_search_input_def on_status_filter_def on_project_filter_def on_date_filter_def
      clearFilters_def sortByField_def on_page_size_change_def applyFilters_def Let_def)

lemma includes_str_sublist: "includes_str s t \<longleftrightarrow> sublist t s"
  by (induction s) (simp_all add: sublist_Cons_right)

lemma isWhiteSpace_code: "isWhiteSpace c \<longleftrightarrow> (of_char c :: nat) \<in> {9, 10, 11, 12, 13, 32, 160}"
proof -
  have "(of_char c :: nat) \<in> of_char ` {CHR 0x09, CHR 0x0A, CHR 0x0B, CHR 0x0C, CHR 0x0D, CHR 0x20, CHR 0xA0}
        \<longleftrightarrow> c \<in> {CHR 0x09, CHR 0x0A, CHR 0x0B, CHR 0x0C, CHR 0x0D, CHR 0x20, CHR 0xA0}"
    by (rule inj_image_mem_iff [OF inj_of_char])
  then show ?thesis by (simp add: isWhiteSpace_def)
qed

lemma ws_toLowerChar: "isWhiteSpace (toLowerChar c) = isWhiteSpace c"
  by (auto simp: isWhiteSpace_code toLowerChar_def Let_def)

lemma trim_toLowerCase: "trim (toLowerCase t) = toLowerCase (trim t)"
proof -
  have c: "isWhiteSpace \<circ> toLowerChar = isWhiteSpace"
    by (simp add: fun_eq_iff ws_toLowerChar)
  show ?thesis
    by (simp add: trim_def toLowerCase_def dropWhile_map rev_map c)
qed

lemma filterArray_matches:
  assumes "trim query \<noteq> []"
  shows "filterArray array query SEARCH_FIELDS = filter (matches_search (trim query)) array"
proof -
  let ?t = "toLowerCase (trim query)"
  have ne: "?t \<noteq> []" using assms by (simp add: toLowerCase_def)
  have s: "query \<noteq> []" using assms by (auto simp: trim_def)
  have "(case item field of None \<Rightarrow> False
         | Some v \<Rightarrow> v \<noteq> [] \<and> includes_str (toLowerCase v) ?t) = field_contains item (trim query) field"
    for item :: js_object and field
    using ne by (auto simp: field_contains_def includes_str_sublist toLowerCase_def split: option.splits)
  then show ?thesis
    using assms s by (simp add: filterArray_def trim_toLowerCase matches_search_def [abs_def])
qed

lemma apply_search_cases:
  "query \<noteq> [] \<Longrightarrow>
   apply_search query c = (if trim query = [] then c else filter (matches_search (trim query)) c)"
  using filterArray_matches [of query c] by (simp add: apply_search_def) (simp add: filterArray_def)

lemma filter_all: "list_all P xs \<Longrightarrow> filter P xs = xs"
  by (induction xs) auto

lemma filter_none: "list_all (\<lambda>x. \<not> P x) xs \<Longrightarrow> filter P xs = []"
  by (induction xs) auto

text \<open>
  C8, as the specification states it, fails for a term with white space at an end: the search
  for \<open>thing\<close> followed by a space keeps the record of the decoding example, none of whose
  fields contains that term.
\<close>

theorem search_untrimmed_counterexample:
  "length (csvToArray example_csv) = 1 \<and>
   apply_search ''thing '' (csvToArray example_csv) = csvToArray example_csv \<and>
   filter (matches_search ''thing '') (csvToArray example_csv) = []"
proof -
  have l: "length (csvToArray example_csv) = 1" by code_simp
  have t: "trim ''thing '' = ''thing''" by code_simp
  have "list_all (matches_search ''thing'') (csvToArray example_csv)"
    by code_simp
  then have m1: "filter (matches_search ''thing'') (csvToArray example_csv) = csvToArray example_csv"
    by (rule filter_all)
  have "list_all (\<lambda>r. \<not> matches_search ''thing '' r) (csvToArray example_csv)"
    by code_simp
  then have m2: "filter (matches_search ''thing '') (csvToArray example_csv) = []"
    by (rule filter_none)
  show ?thesis
    using apply_search_cases [of "''thing ''" "csvToArray example_csv"] l t m1 m2 by simp
qed

text \<open>
  C8, amended. For every record collection and every non-empty search term, the search step
  keeps exactly the records in which at least one of the six fields Context, Project/Task,
  Skills & Tools, Outcome/Deliverable, Tags, Key Learnings/Challenges contains the trimmed
  term, letter case apart; a non-empty term of white space only keeps every record. In
  particular, searching \<open>thing\<close> in the collection of the decoding example returns exactly
  that record, and searching \<open>zzz\<close> returns nothing.
\<close>

theorem search_keeps_matching_records:
  "(query \<noteq> [] \<longrightarrow>
      apply_search query c =
        (if trim query = [] then c else filter (matches_search (trim query)) c)) \<and>
   apply_search ''thing'' (csvToArray example_csv) = csvToArray example_csv \<and>
   apply_search ''zzz'' (csvToArray example_csv) = []"
proof -
  have t: "trim ''thing'' = ''thing''" "trim ''zzz'' = ''zzz''"
    by code_simp+
  have "list_all (matches_search ''thing'') (csvToArray example_csv)"
    by code_simp
  then have m1: "filter (matches_search ''thing'') (csvToArray example_csv) = csvToArray example_csv"
    by (rule filter_all)
  have "list_all (\<lambda>r. \<not> matches_search ''zzz'' r) (csvToArray example_csv)"
    by code_simp
  then have m2: "filter (matches_search ''zzz'') (csvToArray example_csv) = []"
    by (rule filter_none)
  show ?thesis
    using apply_search_cases [of "''thing''" "csvToArray example_csv"]
      apply_search_cases [of "''zzz''" "csvToArray example_csv"] apply_search_cases [of query c] t m1 m2
    by simp
qed

theorem search_keeps_matching_records_witness:
  "'' proj '' \<noteq> [] \<and>
   apply_search '' proj '' (csvToArray example_csv) =
     filter (matches_search ''proj'') (csvToArray example_csv)"
proof -
  have t: "trim '' proj '' = ''proj''" by code_simp
  show ?thesis
    using search_keeps_matching_records [of "'' proj ''" "csvToArray example_csv"] t by simp
qed


section \<open>Properties of the transport encoding\<close>

lemma b64_index_b64_char: "n < 64 \<Longrightarrow> b64_index (b64_char n) = Some n"
  by (auto simp: b64_index_def b64_char_def Let_def)

lemma b64_index_other:
  "b64_index c \<noteq> None \<Longrightarrow> \<not> isAsciiWhitespace c \<and> c \<noteq> CHR ''=''"
proof -
  have "list_all (\<lambda>c. b64_index c = None) [CHR 0x09, CHR 0x0A, CHR 0x0C, CHR 0x0D, CHR 0x20, CHR ''='']"
    by code_simp
  then show "b64_index c \<noteq> None \<Longrightarrow> \<not> isAsciiWhitespace c \<and> c \<noteq> CHR ''=''"
    by (auto simp: isAsciiWhitespace_def)
qed

lemma btoa_bytes_split: "btoa_bytes bs = b64_body bs @ b64_pad bs"
  by (induction bs rule: btoa_bytes.induct) simp_all

lemma b64_body_index:
  "\<forall>b\<in>set bs. b < 256 \<Longrightarrow> \<forall>c\<in>set (b64_body bs). b64_index c \<noteq> None"
proof (induction bs rule: b64_body.induct)
  case (1 a b c rest)
  have "a div 4 < 64" "(a mod 4) * 16 + b div 16 < 64" "(b mod 16) * 4 + c div 64 < 64" "c mod 64 < 64"
    using "1.prems" by auto
  then show ?case using 1 by (simp add: b64_index_b64_char)
next
  case (2 a b)
  have "a div 4 < 64" "(a mod 4) * 16 + b div 16 < 64" "(b mod 16) * 4 < 64"
    using "2.prems" by auto
  then show ?case by (simp add: b64_index_b64_char)
next
  case (3 a)
  have "a div 4 < 64" "(a mod 4) * 16 < 64"
    using "3.prems" by auto
  then show ?case by (simp add: b64_index_b64_char)
next
  case 4
  then show ?case by simp
qed

lemma b64_lengths:
  "length (btoa_bytes bs) mod 4 = 0 \<and> length (b64_body bs) mod 4 \<noteq> 1 \<and>
   (b64_pad bs \<noteq> [] \<longrightarrow> b64_body bs \<noteq> []) \<and>
   (b64_pad bs = [] \<or> b64_pad bs = [CHR ''=''] \<or> b64_pad bs = [CHR ''='', CHR ''=''])"
  by (induction bs rule: btoa_bytes.induct) auto

lemma strip_padding_pad:
  assumes "CHR ''='' \<notin> set x" "length (x @ p) mod 4 = 0" "p \<noteq> [] \<longrightarrow> x \<noteq> []"
    "p = [] \<or> p = [CHR ''=''] \<or> p = [CHR ''='', CHR ''='']"
  shows "strip_padding (x @ p) = x"
proof -
  have l: "x \<noteq> [] \<Longrightarrow> last x \<noteq> CHR ''=''" using assms(1) last_in_set by metis
  consider "p = []" | "p = [CHR ''='']" | "p = [CHR ''='', CHR ''='']" using assms(4) by blast
  then show ?thesis
  proof cases
    case 1
    then show ?thesis using l by (auto simp: strip_padding_def)
  next
    case 2
    then show ?thesis using l assms(2,3) by (simp add: strip_padding_def butlast_append)
  next
    case 3
    then show ?thesis using assms(2,3) by (simp add: strip_padding_def butlast_append)
  qed
qed

lemma atob_sextets_body:
  "\<forall>b\<in>set bs. b < 256 \<Longrightarrow> atob_sextets (map sextet_of (b64_body bs)) = map char_of bs"
proof (induction bs rule: b64_body.induct)
  case (1 a b c rest)
  have r: "a div 4 < 64" "(a mod 4) * 16 + b div 16 < 64" "(b mod 16) * 4 + c div 64 < 64" "c mod 64 < 64"
    using "1.prems" by auto
  have "a div 4 * 4 + ((a mod 4) * 16 + b div 16) div 16 = a"
       "((a mod 4) * 16 + b div 16) mod 16 * 16 + ((b mod 16) * 4 + c div 64) div 4 = b"
       "((b mod 16) * 4 + c div 64) mod 4 * 64 + c mod 64 = c"
    using "1.prems" by auto
  then show ?case using 1 r by (simp add: sextet_of_def b64_index_b64_char)
next
  case (2 a b)
  have r: "a div 4 < 64" "(a mod 4) * 16 + b div 16 < 64" "(b mod 16) * 4 < 64"
    using "2.prems" by auto
  have "a div 4 * 4 + ((a mod 4) * 16 + b div 16) div 16 = a"
       "((a mod 4) * 16 + b div 16) mod 16 * 16 + ((b mod 16) * 4) div 4 = b"
    using "2.prems" by auto
  then show ?case using r by (simp add: sextet_of_def b64_index_b64_char)
next
  case (3 a)
  have r: "a div 4 < 64" "(a mod 4) * 16 < 64"
    using "3.prems" by auto
  have "a div 4 * 4 + ((a mod 4) * 16) div 16 = a" by auto
  then show ?case using r by (simp add: sextet_of_def b64_index_b64_char)
next
  case 4
  then show ?case by simp
qed

lemma atob_btoa: "atob (btoa s) = Inr s"
proof -
  let ?bs = "map of_char s :: nat list"
  have lt: "\<forall>b\<in>set ?bs. b < 256" by auto
  have ix: "\<forall>c\<in>set (b64_body ?bs). b64_index c \<noteq> None"
    using lt by (rule b64_body_index)
  then have body: "\<forall>c\<in>set (b64_body ?bs). \<not> isAsciiWhitespace c \<and> c \<noteq> CHR ''=''"
    using b64_index_other by blast
  have pad: "\<forall>c\<in>set (b64_pad ?bs). \<not> isAsciiWhitespace c"
    using b64_lengths [of ?bs] by (auto simp: isAsciiWhitespace_def)
  have f: "filter (\<lambda>c. \<not> isAsciiWhitespace c) (btoa s) = b64_body ?bs @ b64_pad ?bs"
    using body pad by (simp add: btoa_def btoa_bytes_split)
  have "length (b64_body ?bs @ b64_pad ?bs) mod 4 = 0"
    using b64_lengths [of ?bs] by (simp add: btoa_bytes_split)
  then have sp: "strip_padding (b64_body ?bs @ b64_pad ?bs) = b64_body ?bs"
    using body b64_lengths [of ?bs] by (intro strip_padding_pad) auto
  have ok: "\<not> (length (b64_body ?bs) mod 4 = 1 \<or> list_ex (\<lambda>c. b64_index c = None) (b64_body ?bs))"
    using ix b64_lengths [of ?bs] by (simp add: list_ex_iff)
  have "atob_sextets (map sextet_of (b64_body ?bs)) = map char_of ?bs"
    using lt by (rule atob_sextets_body)
  then have "atob_sextets (map (\<lambda>c. case b64_index c of None \<Rightarrow> 0 | Some n \<Rightarrow> n) (b64_body ?bs)) = s"
    by (simp add: sextet_of_def [abs_def] comp_def)
  then show ?thesis using f sp ok by (simp add: atob_def Let_def)
qed

lemma btoa_eq_Nil: "btoa s = [] \<longleftrightarrow> s = []"
proof -
  have "btoa_bytes bs = [] \<longleftrightarrow> bs = []" for bs
    by (induction bs rule: btoa_bytes.induct) simp_all
  then show ?thesis by (simp add: btoa_def)
qed


section \<open>Properties of the remote store client\<close>

lemma show_nat_examples: "show_nat 0 = ''0''" "show_nat 404 = ''404''" "show_nat 409 = ''409''"
  by code_simp+

lemma includes_str_append: "includes_str (p @ t @ q) t"
  by (simp add: includes_str_sublist)

lemma isConfigured_example_api: "isConfigured example_api"
  by (simp add: example_api_def new_GitHubAPI_def isConfigured_def)

lemma makeRequest_failure_status:
  assumes "isConfigured a" "fetch (net w) (build_request (GITHUB_API_BASE @ endpoint) options) = (Response status statusText body, n')"
    "\<not> (200 \<le> status \<and> status \<le> 299)" "status \<noteq> 401" "status \<noteq> 403"
  shows "makeRequest fetch a endpoint options w =
           (Inl (Error (''GitHub API error: '' @ show_nat status @ '' '' @ statusText)),
            w\<lparr>requests := requests w @ [build_request (GITHUB_API_BASE @ endpoint) options], net := n'\<rparr>)"
  using assms by (simp add: makeRequest_def Let_def)

lemma makeRequest_success:
  assumes "isConfigured a" "fetch (net w) (build_request (GITHUB_API_BASE @ endpoint) options) = (Response status statusText body, n')"
    "200 \<le> status" "status \<le> 299"
  shows "makeRequest fetch a endpoint options w =
           (body, w\<lparr>requests := requests w @ [build_request (GITHUB_API_BASE @ endpoint) options], net := n'\<rparr>)"
  using assms by (simp add: makeRequest_def Let_def)

lemma updateCSVContent_failure:
  "makeRequest fetch a (contents_endpoint a)
     (Some \<lparr>body_message = commitMessage, body_content = btoa content, body_sha = sha a\<rparr>) w = (Inl e, w') \<Longrightarrow>
   updateCSVContent fetch a content commitMessage w = (Inl e, a, w')"
  by (simp add: updateCSVContent_def Let_def)

lemmas api_defs =
  contents_endpoint_def getCSVContent_def cached_content_def makeRequest_def isConfigured_def build_request_def Let_def
  updateCSVContent_def on_fetch_error_def createInitialCSV_def

text \<open>
  A client that is not configured makes no request and is returned as it was by every write
  and by every read that finds no cached content: the revision token of such a client stays
  \<open>null\<close>, as the constructor set it. A client that holds a token is a configured one.
\<close>

lemma not_configured_message: "\<not> includes_str GITHUB_NOT_CONFIGURED ''404''"
  by code_simp

lemma unconfigured_client_unchanged:
  assumes "\<not> isConfigured a"
  shows "updateCSVContent fetch a content commitMessage w = (Inl (Error GITHUB_NOT_CONFIGURED), a, w)"
    and "cached_content forceRefresh a w = None \<Longrightarrow>
         getCSVContent fetch forceRefresh a w = (Inl (Error GITHUB_NOT_CONFIGURED), a, w)"
  using assms not_configured_message
  by (simp_all add: updateCSVContent_def getCSVContent_def makeRequest_def on_fetch_error_def Let_def)

text \<open>
  C2. The client has one error class, told apart by the message; the conflict is the error
  whose message carries the status 409 of the answer. For every configured client whose cached
  revision token is not the current token of the blob in the store, \<open>updateCSVContent\<close>
  fails with that error, and the client is returned as it was: cached content, revision token
  and fetch timestamp are the ones before the write. The store is unchanged as well; only the
  request is added to the log.
\<close>

theorem stale_write_rejected:
  assumes "isConfigured a" and "blob (net w) = Some (stored, current)"
    and "sha a = Some t" and "t \<noteq> current"
  shows "updateCSVContent store_fetch a content commitMessage w =
           (Inl (Error ''GitHub API error: 409 Conflict''), a,
            w\<lparr>requests := requests w @
                 [build_request (GITHUB_API_BASE @ contents_endpoint a)
                    (Some \<lparr>body_message = commitMessage, body_content = btoa content, body_sha = Some t\<rparr>)]\<rparr>)"
proof -
  let ?rq = "build_request (GITHUB_API_BASE @ contents_endpoint a)
               (Some \<lparr>body_message = commitMessage, body_content = btoa content, body_sha = sha a\<rparr>)"
  have "store_fetch (net w) ?rq = (Response 409 ''Conflict'' (Inr OtherDocument), net w)"
    using assms by (simp add: store_fetch_def build_request_def)
  then have "makeRequest store_fetch a (contents_endpoint a)
               (Some \<lparr>body_message = commitMessage, body_content = btoa content, body_sha = sha a\<rparr>) w =
             (Inl (Error (''GitHub API error: '' @ show_nat 409 @ '' '' @ ''Conflict'')),
              w\<lparr>requests := requests w @ [?rq], net := net w\<rparr>)"
    using assms(1) by (intro makeRequest_failure_status) simp_all
  then show ?thesis
    using assms(3) by (simp add: updateCSVContent_failure show_nat_examples)
qed


theorem stale_write_rejected_witness:
  "isConfigured stale_api \<and> sha stale_api = Some ''rev0'' \<and>
   blob (net moved_world) = Some (btoa example_csv, ''rev1'') \<and>
   fst (updateCSVContent store_fetch stale_api (arrayToCSV []) ''Add track record entry'' moved_world) =
     Inl (Error ''GitHub API error: 409 Conflict'') \<and>
   fst (snd (updateCSVContent store_fetch stale_api (arrayToCSV []) ''Add track record entry'' moved_world)) =
     stale_api \<and>
   net (snd (snd (updateCSVContent store_fetch stale_api (arrayToCSV []) ''Add track record entry'' moved_world))) =
     net moved_world"
proof -
  have c: "isConfigured stale_api"
    using isConfigured_example_api by (simp add: stale_api_def isConfigured_def)
  have s: "sha stale_api = Some ''rev0''" by (simp add: stale_api_def)
  have b: "blob (net moved_world) = Some (btoa example_csv, ''rev1'')" by (simp add: moved_world_def)
  have n: "''rev0'' \<noteq> ''rev1''" by simp
  show ?thesis
    using stale_write_rejected [OF c b s n, of "arrayToCSV []" "''Add track record entry''"] c s b
    by simp
qed














text \<open>
  C5, as the specification states it, fails: behind a store that answers a write without
  authorization by 401 (and the client sends none), the read of a file that is not found
  fails with the error of the write.
\<close>

theorem not_found_read_counterexample:
  "fst (authorizing_fetch (net empty_world)
          (build_request (GITHUB_API_BASE @ contents_endpoint example_api) None)) =
     Response 404 ''Not Found'' (Inr OtherDocument) \<and>
   fst (getCSVContent authorizing_fetch False example_api empty_world) = Inl (Error GITHUB_AUTH_ERROR)"
  by (simp add: api_defs example_api_def new_GitHubAPI_def store_fetch_def authorizing_fetch_def
      empty_world_def show_nat_examples includes_str_append [of "''GitHub API error: ''" "''404''" "'' Not Found''", simplified])

lemma makeRequest_logs:
  assumes "isConfigured a"
  shows "requests (snd (makeRequest fetch a endpoint options w)) =
           requests w @ [build_request (GITHUB_API_BASE @ endpoint) options]"
proof (cases "fetch (net w) (build_request (GITHUB_API_BASE @ endpoint) options)")
  case (Pair answer n')
  then show ?thesis
    using assms by (cases answer) (simp_all add: makeRequest_def Let_def)
qed

lemma updateCSVContent_world:
  "snd (snd (updateCSVContent fetch a content commitMessage w)) =
     snd (makeRequest fetch a (contents_endpoint a)
            (Some \<lparr>body_message = commitMessage, body_content = btoa content, body_sha = sha a\<rparr>) w)"
  by (auto simp: updateCSVContent_def Let_def split: prod.splits sum.splits json.splits)

lemma createInitialCSV_world:
  "snd (snd (createInitialCSV fetch a w)) =
     snd (makeRequest fetch a (contents_endpoint a)
            (Some \<lparr>body_message = ''Initial CSV file creation'',
                   body_content = btoa (header_line @ [LF]), body_sha = sha a\<rparr>) w)"
  using updateCSVContent_world [of fetch a "header_line @ [LF]" "''Initial CSV file creation''" w]
  by (auto simp: createInitialCSV_def Let_def join_CSV_HEADERS split: prod.splits sum.splits)

lemma not_found_write_accepted:
  assumes "isConfigured a" and "cached_content forceRefresh a w = None"
    and "fetch (net w) (build_request (GITHUB_API_BASE @ contents_endpoint a) None) =
           (Response 404 statusText body, n1)"
    and "fetch n1 (build_request (GITHUB_API_BASE @ contents_endpoint a)
           (Some \<lparr>body_message = ''Initial CSV file creation'',
                  body_content = btoa (header_line @ [LF]), body_sha = sha a\<rparr>)) =
           (Response status statusText' (Inr (CommitDocument new_sha)), n2)"
    and "200 \<le> status" and "status \<le> 299"
  shows "getCSVContent fetch forceRefresh a w =
           (Inr (header_line @ [LF]),
            a\<lparr>base64Content := Some (btoa (header_line @ [LF])), sha := Some new_sha,
              lastFetch := Some (clock w)\<rparr>,
            w\<lparr>requests := requests w @
                 [build_request (GITHUB_API_BASE @ contents_endpoint a) None,
                  build_request (GITHUB_API_BASE @ contents_endpoint a)
                    (Some \<lparr>body_message = ''Initial CSV file creation'',
                           body_content = btoa (header_line @ [LF]), body_sha = sha a\<rparr>)],
               net := n2\<rparr>)"
proof -
  let ?get = "build_request (GITHUB_API_BASE @ contents_endpoint a) None"
  let ?body = "\<lparr>body_message = ''Initial CSV file creation'',
                 body_content = btoa (header_line @ [LF]), body_sha = sha a\<rparr>"
  let ?put = "build_request (GITHUB_API_BASE @ contents_endpoint a) (Some ?body)"
  let ?w1 = "w\<lparr>requests := requests w @ [?get], net := n1\<rparr>"
  have g: "makeRequest fetch a (contents_endpoint a) None w =
            (Inl (Error (''GitHub API error: '' @ show_nat 404 @ '' '' @ statusText)), ?w1)"
    using assms(1,3) by (intro makeRequest_failure_status) simp_all
  have i: "includes_str (''GitHub API error: '' @ show_nat 404 @ '' '' @ statusText) ''404''"
    using includes_str_append [of "''GitHub API error: ''" "''404''" "'' '' @ statusText"]
    by (simp add: show_nat_examples)
  have p: "makeRequest fetch a (contents_endpoint a) (Some ?body) ?w1 =
            (Inr (CommitDocument new_sha), ?w1\<lparr>requests := requests ?w1 @ [?put], net := n2\<rparr>)"
    using assms(1,4,5,6) by (intro makeRequest_success) simp_all
  have u: "updateCSVContent fetch a (header_line @ [LF]) ''Initial CSV file creation'' ?w1 =
            (Inr True,
             a\<lparr>base64Content := Some (btoa (header_line @ [LF])), sha := Some new_sha,
               lastFetch := Some (clock w)\<rparr>,
             ?w1\<lparr>requests := requests ?w1 @ [?put], net := n2\<rparr>)"
    using p by (simp add: updateCSVContent_def Let_def)
  show ?thesis
    using assms(2) g i u
    by (simp add: getCSVContent_def on_fetch_error_def createInitialCSV_def join_CSV_HEADERS Let_def)
qed

lemma not_found_requests:
  assumes "isConfigured a" and "cached_content forceRefresh a w = None"
    and "fetch (net w) (build_request (GITHUB_API_BASE @ contents_endpoint a) None) =
           (Response 404 statusText body, n1)"
  shows "requests (snd (snd (getCSVContent fetch forceRefresh a w))) =
           requests w @
             [build_request (GITHUB_API_BASE @ contents_endpoint a) None,
              build_request (GITHUB_API_BASE @ contents_endpoint a)
                (Some \<lparr>body_message = ''Initial CSV file creation'',
                       body_content = btoa (header_line @ [LF]), body_sha = sha a\<rparr>)]"
proof -
  let ?get = "build_request (GITHUB_API_BASE @ contents_endpoint a) None"
  let ?w1 = "w\<lparr>requests := requests w @ [?get], net := n1\<rparr>"
  have g: "makeRequest fetch a (contents_endpoint a) None w =
            (Inl (Error (''GitHub API error: '' @ show_nat 404 @ '' '' @ statusText)), ?w1)"
    using assms(1,3) by (intro makeRequest_failure_status) simp_all
  have i: "includes_str (''GitHub API error: '' @ show_nat 404 @ '' '' @ statusText) ''404''"
    using includes_str_append [of "''GitHub API error: ''" "''404''" "'' '' @ statusText"]
    by (simp add: show_nat_examples)
  have "getCSVContent fetch forceRefresh a w = createInitialCSV fetch a ?w1"
    using assms(2) g i by (simp add: getCSVContent_def on_fetch_error_def)
  then show ?thesis
    using makeRequest_logs [OF assms(1), of fetch "contents_endpoint a" _ ?w1]
    by (simp add: createInitialCSV_world)
qed

text \<open>
  C5, amended. For every read in which the store reports the file as not found, the client
  writes back an initial blob whose content is exactly the canonical header row of ten columns
  followed by a line feed: whatever the store answers, the read sends, after its \<open>GET\<close>, one
  \<open>PUT\<close> with that content in the transport encoding. When the store accepts that write,
  answering with a success status and the new revision token, the read does not fail and
  returns that content.
\<close>

theorem not_found_creates_initial_csv:
  assumes "isConfigured a" and "cached_content forceRefresh a w = None"
    and "fetch (net w) (build_request (GITHUB_API_BASE @ contents_endpoint a) None) =
           (Response 404 statusText body, n')"
  shows
    "requests (snd (snd (getCSVContent fetch forceRefresh a w))) =
       requests w @
         [build_request (GITHUB_API_BASE @ contents_endpoint a) None,
          build_request (GITHUB_API_BASE @ contents_endpoint a)
            (Some \<lparr>body_message = ''Initial CSV file creation'',
                   body_content = btoa (header_line @ [LF]), body_sha = sha a\<rparr>)] \<and>
     atob (btoa (header_line @ [LF])) = Inr (header_line @ [LF]) \<and>
     (fetch n' (build_request (GITHUB_API_BASE @ contents_endpoint a)
         (Some \<lparr>body_message = ''Initial CSV file creation'',
                body_content = btoa (header_line @ [LF]), body_sha = sha a\<rparr>)) =
         (Response status statusText' (Inr (CommitDocument new_sha)), n'') \<and>
      200 \<le> status \<and> status \<le> 299 \<longrightarrow>
        getCSVContent fetch forceRefresh a w =
          (Inr (header_line @ [LF]),
           a\<lparr>base64Content := Some (btoa (header_line @ [LF])), sha := Some new_sha,
             lastFetch := Some (clock w)\<rparr>,
           w\<lparr>requests := requests w @
                [build_request (GITHUB_API_BASE @ contents_endpoint a) None,
                 build_request (GITHUB_API_BASE @ contents_endpoint a)
                   (Some \<lparr>body_message = ''Initial CSV file creation'',
                          body_content = btoa (header_line @ [LF]), body_sha = sha a\<rparr>)],
              net := n''\<rparr>))"
proof (intro conjI impI)
  show "requests (snd (snd (getCSVContent fetch forceRefresh a w))) =
          requests w @
            [build_request (GITHUB_API_BASE @ contents_endpoint a) None,
             build_request (GITHUB_API_BASE @ contents_endpoint a)
               (Some \<lparr>body_message = ''Initial CSV file creation'',
                      body_content = btoa (header_line @ [LF]), body_sha = sha a\<rparr>)]"
    using assms by (rule not_found_requests)
  show "atob (btoa (header_line @ [LF])) = Inr (header_line @ [LF])"
    by (rule atob_btoa)
next
  assume p: "fetch n' (build_request (GITHUB_API_BASE @ contents_endpoint a)
      (Some \<lparr>body_message = ''Initial CSV file creation'',
             body_content = btoa (header_line @ [LF]), body_sha = sha a\<rparr>)) =
      (Response status statusText' (Inr (CommitDocument new_sha)), n'') \<and>
    200 \<le> status \<and> status \<le> 299"
  show "getCSVContent fetch forceRefresh a w =
          (Inr (header_line @ [LF]),
           a\<lparr>base64Content := Some (btoa (header_line @ [LF])), sha := Some new_sha,
             lastFetch := Some (clock w)\<rparr>,
           w\<lparr>requests := requests w @
                [build_request (GITHUB_API_BASE @ contents_endpoint a) None,
                 build_request (GITHUB_API_BASE @ contents_endpoint a)
                   (Some \<lparr>body_message = ''Initial CSV file creation'',
                          body_content = btoa (header_line @ [LF]), body_sha = sha a\<rparr>)],
              net := n''\<rparr>)"
    using assms conjunct1 [OF p] conjunct1 [OF conjunct2 [OF p]] conjunct2 [OF conjunct2 [OF p]]
    by (rule not_found_write_accepted)
qed

theorem not_found_creates_initial_csv_witness:
  "isConfigured example_api \<and> cached_content False example_api empty_world = None \<and>
   fst (store_fetch (net empty_world)
          (build_request (GITHUB_API_BASE @ contents_endpoint example_api) None)) =
     Response 404 ''Not Found'' (Inr OtherDocument) \<and>
   length (requests (snd (snd (getCSVContent store_fetch False example_api empty_world)))) = 2 \<and>
   fst (getCSVContent store_fetch False example_api empty_world) = Inr (header_line @ [LF]) \<and>
   blob (net (snd (snd (getCSVContent store_fetch False example_api empty_world)))) =
     Some (btoa (header_line @ [LF]), ''rev0'')"
proof -
  let ?n2 = "\<lparr>blob = Some (btoa (header_line @ [LF]), ''rev0''), issued = 1\<rparr>"
  have n: "cached_content False example_api empty_world = None"
    by (simp add: cached_content_def example_api_def new_GitHubAPI_def)
  have g: "store_fetch (net empty_world)
             (build_request (GITHUB_API_BASE @ contents_endpoint example_api) None) =
           (Response 404 ''Not Found'' (Inr OtherDocument), net empty_world)"
    by (simp add: store_fetch_def build_request_def empty_world_def)
  have p: "store_fetch (net empty_world)
             (build_request (GITHUB_API_BASE @ contents_endpoint example_api)
                (Some \<lparr>body_message = ''Initial CSV file creation'',
                       body_content = btoa (header_line @ [LF]), body_sha = sha example_api\<rparr>)) =
           (Response 201 ''Created'' (Inr (CommitDocument ''rev0'')), ?n2)"
    by (simp add: store_fetch_def accept_write_def build_request_def empty_world_def show_nat_examples
        example_api_def new_GitHubAPI_def Let_def)
  show ?thesis
    using not_found_creates_initial_csv [where fetch = store_fetch and a = example_api
        and w = empty_world and forceRefresh = False, OF isConfigured_example_api n g,
        where status = 201 and statusText' = "''Created''" and new_sha = "''rev0''" and n'' = ?n2]
      isConfigured_example_api n g p
    by (simp add: empty_world_def)
qed


section \<open>Appending and deleting an entry\<close>

lemma arrayToCSV_nonempty: "arrayToCSV c \<noteq> []"
proof (cases c)
  case Nil
  then show ?thesis by (simp add: arrayToCSV_def)
next
  case (Cons row rows)
  then show ?thesis using hd_header_line by (simp add: arrayToCSV_def join_CSV_HEADERS)
qed

lemma csvToArray_header_only: "csvToArray (header_line @ [LF]) = []"
  using csvToArray_arrayToCSV_canonical [of "[]"] by (simp add: arrayToCSV_def join_CSV_HEADERS)

lemma set_replace_quotes: "set (replace_quotes v) \<subseteq> insert DQUOTE (set v)"
  by (induction v) auto

lemma LF_DQUOTE: "LF \<noteq> DQUOTE" "LF \<noteq> COMMA"
  by (simp_all add: LF_def DQUOTE_def COMMA_def)

lemma LF_csv_field: "LF \<notin> set (or_empty (row h)) \<Longrightarrow> LF \<notin> set (csv_field row h)"
  using set_replace_quotes [of "or_empty (row h)"]
  by (auto simp: csv_field_def Let_def LF_DQUOTE)

lemma set_join: "set (join xs sep) \<subseteq> (\<Union>x\<in>set xs. set x) \<union> set sep"
  by (induction xs sep rule: join.induct) auto

lemma LF_csv_line_entry:
  assumes "\<forall>h\<in>set CSV_HEADERS. LF \<notin> set (or_empty (row h))"
  shows "LF \<notin> set (csv_line row)"
proof
  assume "LF \<in> set (csv_line row)"
  then have "LF \<in> (\<Union>x\<in>set (map (csv_field row) CSV_HEADERS). set x) \<union> set [COMMA]"
    using set_join [of "map (csv_field row) CSV_HEADERS" "[COMMA]"] by (auto simp: csv_line_def)
  then obtain h where "h \<in> set CSV_HEADERS" "LF \<in> set (csv_field row h)"
    by (auto simp: LF_DQUOTE)
  then show False using assms LF_csv_field by blast
qed

lemma dropWhile_keeps: "\<not> P x \<Longrightarrow> x \<in> set (dropWhile P (ys @ x # zs))"
  by (induction ys) auto

lemma csvToArray_rows_append:
  "csvToArray_rows hs (xs @ ys) = csvToArray_rows hs xs @ csvToArray_rows hs ys"
  by (induction xs) auto

lemma trim_tail:
  assumes "s \<noteq> []" "\<not> isWhiteSpace (hd s)" "x \<in> set l" "\<not> isWhiteSpace x"
  shows "trim (s @ l) = s @ rev (dropWhile isWhiteSpace (rev l))"
proof -
  have "dropWhile isWhiteSpace (s @ l) = s @ l"
    using assms(1,2) by (cases s) auto
  moreover have "dropWhile isWhiteSpace (rev l @ rev s) = dropWhile isWhiteSpace (rev l) @ rev s"
    using assms(3,4) by (intro dropWhile_append1 [of x]) auto
  ultimately show ?thesis by (simp add: trim_def)
qed

lemma csvToArray_appended:
  assumes c: "\<forall>row\<in>set c. \<forall>h\<in>set CSV_HEADERS. plain_value (or_empty (row h))"
    and e: "\<forall>h\<in>set CSV_HEADERS. LF \<notin> set (or_empty (e h))"
  shows "\<exists>r. csvToArray (arrayToCSV (c @ [e])) = map canonical c @ [r]"
proof -
  let ?p = "join (header_line # map csv_line c) [LF] @ [LF]"
  let ?l = "csv_line e"
  let ?t = "rev (dropWhile isWhiteSpace (rev ?l))"
  have enc: "arrayToCSV (c @ [e]) = ?p @ ?l"
    using join_snoc [of "header_line # map csv_line c" ?l "[LF]"]
    by (simp add: arrayToCSV_def join_CSV_HEADERS)
  have hp: "hd ?p = hd header_line"
    using hd_header_line by (cases c) simp_all
  have tr: "trim (?p @ ?l) = ?p @ ?t"
    using hp hd_header_line COMMA_in_csv_line [of e] not_ws_COMMA
    by (intro trim_tail [of _ COMMA]) simp_all
  obtain a b where ab: "?l = a @ COMMA # b"
    using COMMA_in_csv_line [of e] by (meson split_list)
  have ct: "COMMA \<in> set ?t"
    using dropWhile_keeps [of isWhiteSpace COMMA "rev b" "rev a"] not_ws_COMMA ab by simp
  then have nb: "trim ?t \<noteq> []" using not_ws_COMMA by (rule trim_nonempty)
  have "set ?t \<subseteq> set ?l" using set_dropWhileD by fastforce
  then have lt: "LF \<notin> set ?t" using LF_csv_line_entry [OF e] by blast
  let ?ls = "(header_line # map csv_line c) @ [?t]"
  have j: "?p @ ?t = join ?ls [LF]"
    using join_snoc [of "header_line # map csv_line c" ?t "[LF]"] by simp
  have nl: "\<forall>l\<in>set ?ls. LF \<notin> set l"
    using c hd_header_line LF_csv_line lt by auto
  have sp: "split (?p @ ?t) LF = ?ls"
    unfolding split_def j using nl by (intro split_join) simp_all
  have q: "\<forall>row\<in>set c. \<forall>h\<in>set CSV_HEADERS. DQUOTE \<notin> set (or_empty (row h))"
    using c by (simp add: plain_value_def)
  have ne: "?p @ ?t \<noteq> []" by simp
  have "csvToArray (?p @ ?l) = csvToArray_rows CSV_HEADERS (map csv_line c @ [?t])"
    unfolding csvToArray_def tr sp using ne
    by (simp add: split_header_line)
  then show ?thesis
    using csvToArray_rows_csv_lines [OF q] nb
    by (simp add: enc csvToArray_rows_append)
qed


lemma splice_one_last: "splice_one (xs @ [r]) (int (length xs)) = (Some r, xs)"
  by (simp add: splice_one_def relative_index_def)

lemma storable_roundtrip:
  assumes "\<forall>row\<in>set c. dom row = set CSV_HEADERS \<and>
             (\<forall>h\<in>set CSV_HEADERS. plain_value (or_empty (row h)))"
  shows "csvToArray (arrayToCSV c) = c" and "map canonical c = c"
proof -
  show m: "map canonical c = c"
    using assms by (intro map_idI canonical_id) simp_all
  have "\<forall>row\<in>set c. \<forall>h\<in>set CSV_HEADERS. plain_value (or_empty (row h))"
    using assms by simp
  then show "csvToArray (arrayToCSV c) = c"
    using m by (simp add: csvToArray_arrayToCSV_canonical)
qed

text \<open>
  The sequence of the claim on an entry without line feeds. The client is configured and its
  cache is empty, the store holds the encoding of a collection of records with the ten
  canonical fields and plain values (what any text written by \<open>arrayToCSV\<close> decodes to), and
  the entry has no line feed in its ten fields. Then \<open>appendEntry\<close> succeeds, and after
  \<open>deleteEntry\<close> at the index at which the entry was appended the store holds the encoding
  of the collection again.
\<close>

lemma append_then_delete_restores:
  assumes a: "isConfigured a" "base64Content a = None" "cacheTimeout a = 5 * 60 * 1000"
    and w: "clock w \<noteq> 0" "blob (net w) = Some (btoa (arrayToCSV c), token)"
    and c: "\<forall>row\<in>set c. dom row = set CSV_HEADERS \<and>
             (\<forall>h\<in>set CSV_HEADERS. plain_value (or_empty (row h)))"
    and e: "\<forall>h\<in>set CSV_HEADERS. LF \<notin> set (or_empty (e h))"
  shows "fst (appendEntry store_fetch a e w) = Inr True \<and>
         (\<exists>token'.
            blob (net (snd (snd (deleteEntry sortArray store_fetch (int (length c)) app
                                   (fst (snd (appendEntry store_fetch a e w)))
                                   (snd (snd (appendEntry store_fetch a e w))))))) =
              Some (btoa (arrayToCSV c), token'))"
proof -
  have p: "\<forall>row\<in>set c. \<forall>h\<in>set CSV_HEADERS. plain_value (or_empty (row h))"
    using c by simp
  obtain r where r: "csvToArray (arrayToCSV (c @ [e])) = c @ [r]"
    using csvToArray_appended [OF p e] storable_roundtrip(2) [OF c] by auto
  have rt: "csvToArray (arrayToCSV c) = c"
    using c by (rule storable_roundtrip(1))
  obtain r1 a1 w1 where ap: "appendEntry store_fetch a e w = (r1, a1, w1)"
    by (cases "appendEntry store_fetch a e w") auto
  have ap': "r1 = Inr True \<and> isConfigured a1 \<and>
             base64Content a1 = Some (btoa (arrayToCSV (c @ [e]))) \<and>
             lastFetch a1 = Some (clock w) \<and> cacheTimeout a1 = 5 * 60 * 1000 \<and>
             clock w1 = clock w \<and> (\<exists>t. sha a1 = Some t \<and> blob (net w1) = Some (btoa (arrayToCSV (c @ [e])), t))"
    using ap a w
    by (auto simp: appendEntry_def api_defs store_fetch_def accept_write_def atob_btoa rt)
  then obtain t where t: "sha a1 = Some t" "blob (net w1) = Some (btoa (arrayToCSV (c @ [e])), t)"
    by blast
  have "\<exists>token'. blob (net (snd (snd (deleteEntry sortArray store_fetch (int (length c)) app a1 w1)))) =
          Some (btoa (arrayToCSV c), token')"
    using ap' t w(1)
    by (simp add: deleteEntry_def loadTrackRecords_def api_defs store_fetch_def accept_write_def
        atob_btoa btoa_eq_Nil arrayToCSV_nonempty r splice_one_last rt)
  then show ?thesis using ap ap' by simp
qed

lemma after_append_value:
  "after_append =
     (Inr True,
      example_api\<lparr>base64Content := Some (btoa (arrayToCSV [newline_entry])), sha := Some (''rev'' @ show_nat 1),
        lastFetch := Some 1000\<rparr>,
      \<lparr>clock = 1000,
       requests =
         [build_request (GITHUB_API_BASE @ contents_endpoint example_api) None,
          build_request (GITHUB_API_BASE @ contents_endpoint example_api)
            (Some \<lparr>body_message = ''Add track record entry: '' @ template_value (newline_entry ''Project/Task'')
                                    @ '' - '' @ template_value (newline_entry ''Date''),
                   body_content = btoa (arrayToCSV [newline_entry]), body_sha = Some ''rev0''\<rparr>)],
       net = \<lparr>blob = Some (btoa (arrayToCSV [newline_entry]), ''rev'' @ show_nat 1), issued = 2\<rparr>\<rparr>)"
  by (simp add: after_append_def appendEntry_def api_defs example_api_def new_GitHubAPI_def
      store_fetch_def accept_write_def seeded_world_def atob_btoa csvToArray_header_only)

lemma splice_newline_entry:
  "splice_one (csvToArray (arrayToCSV [newline_entry])) 0 =
     (Some (csvToArray (arrayToCSV [newline_entry]) ! 0), remaining)"
proof -
  have "length (csvToArray (arrayToCSV [newline_entry])) = 2"
    by code_simp
  then have "fst (splice_one (csvToArray (arrayToCSV [newline_entry])) 0) =
             Some (csvToArray (arrayToCSV [newline_entry]) ! 0)"
    by (simp add: splice_one_def relative_index_def)
  then show ?thesis
    by (simp add: remaining_def prod_eq_iff)
qed

lemma after_delete_store:
  "shown (fst after_delete) = [(''Entry deleted successfully!'', ''success'')] \<and>
   base64Content (fst (snd after_delete)) = Some (btoa stored_after) \<and>
   blob (net (snd (snd after_delete))) = Some (btoa stored_after, ''rev'' @ show_nat 2)"
  by (simp add: after_delete_def after_append_value deleteEntry_def loadTrackRecords_def api_defs
      example_api_def new_GitHubAPI_def store_fetch_def accept_write_def atob_btoa btoa_eq_Nil
      arrayToCSV_nonempty splice_newline_entry stored_after_def applyFilters_def notify_error_def
      new_TrackRecordApp_def)

text \<open>
  C6 on an entry with a line feed in a field. The store holds the header line only, so the
  collection is empty and the entry is appended at index 0. \<open>arrayToCSV\<close> wraps the field in
  quotes, yet \<open>csvToArray\<close> splits the text at every line feed, also between quotes: the
  appended entry reads back as two records. Deleting index 0 removes the first of them, both
  writes are accepted, and the store is left with a text that decodes to one record, where the
  collection before the append was empty.
\<close>

theorem append_delete_newline_entry:
  "length (csvToArray (header_line @ [LF])) = 0 \<and>
   fst after_append = Inr True \<and>
   shown (fst after_delete) = [(''Entry deleted successfully!'', ''success'')] \<and>
   blob (net (snd (snd after_delete))) = Some (btoa stored_after, ''rev2'') \<and>
   atob (btoa stored_after) = Inr stored_after \<and>
   length (csvToArray stored_after) = 1 \<and>
   (csvToArray stored_after ! 0) ''Date'' =
     Some ''line two,Proj,JS,Shipped,2h,Learned X,Next Y,Completed,tag1''"
proof -
  have "length (csvToArray stored_after) = 1 \<and>
        (csvToArray stored_after ! 0) ''Date'' =
          Some ''line two,Proj,JS,Shipped,2h,Learned X,Next Y,Completed,tag1''"
    by code_simp
  moreover have "show_nat 2 = ''2''" by code_simp
  ultimately show ?thesis
    using after_delete_store by (simp add: csvToArray_header_only after_append_value atob_btoa)
qed

end
